theory Spec2Isabelle
  imports Main
begin

chapter \<open>The model\<close>

section \<open>Values of the empty interface and package fmt\<close>

text \<open>
  A value of the empty interface \<^verbatim>\<open>interface{}\<close>, for the dynamic types that are
  modelled: the untyped nil, strings, byte slices, ints and bools.
\<close>

datatype iface = INil | IString string | IBytes string | IInt int | IBool bool

text \<open>Decimal digits of a natural number, most significant first (strconv.FormatUint(n, 10)).\<close>

function FormatUint :: "nat \<Rightarrow> string" where
  "FormatUint n =
     (if n < 10 then [char_of (48 + n)]
      else FormatUint (n div 10) @ [char_of (48 + n mod 10)])"
  by pat_completeness auto
termination
  by (relation "measure (\<lambda>n. n)") auto

declare FormatUint.simps [simp del]

text \<open>strconv.FormatInt(i, 10).\<close>

definition FormatInt :: "int \<Rightarrow> string" where
  "FormatInt i = (if i < 0 then CHR ''-'' # FormatUint (nat (- i)) else FormatUint (nat i))"

text \<open>strconv.FormatBool.\<close>

definition FormatBool :: "bool \<Rightarrow> string" where
  "FormatBool b = (if b then ''true'' else ''false'')"

text \<open>strings.Join.\<close>

fun Join :: "string list \<Rightarrow> string \<Rightarrow> string" where
  "Join [] sep = []"
| "Join [x] sep = x"
| "Join (x # y # ys) sep = x @ sep @ Join (y # ys) sep"

text \<open>
  Package fmt, for the fragment the repository's calls stay in: the verbs \<^verbatim>\<open>%s\<close> and
  \<^verbatim>\<open>%v\<close> without flags, width or precision, and the escape \<^verbatim>\<open>%%\<close>. Any other
  character after a percent sign is reported the way fmt reports a verb the operand does
  not support.
\<close>

definition typeName :: "iface \<Rightarrow> string" where
  "typeName a =
     (case a of INil \<Rightarrow> ''<nil>'' | IString _ \<Rightarrow> ''string'' | IBytes _ \<Rightarrow> ''[]uint8''
      | IInt _ \<Rightarrow> ''int'' | IBool _ \<Rightarrow> ''bool'')"

text \<open>The operand under \<^verbatim>\<open>%v\<close>.\<close>

definition fmt_v :: "iface \<Rightarrow> string" where
  "fmt_v a =
     (case a of
        INil \<Rightarrow> ''<nil>''
      | IString s \<Rightarrow> s
      | IBytes bs \<Rightarrow> ''['' @ Join (map (\<lambda>c. FormatUint (of_char c)) bs) '' '' @ '']''
      | IInt i \<Rightarrow> FormatInt i
      | IBool b \<Rightarrow> FormatBool b)"

text \<open>fmt's report of a verb that the operand does not support.\<close>

definition badVerb :: "char \<Rightarrow> iface \<Rightarrow> string" where
  "badVerb verb a =
     (case a of
        INil \<Rightarrow> ''%!'' @ [verb] @ ''(<nil>)''
      | _ \<Rightarrow> ''%!'' @ [verb] @ ''('' @ typeName a @ ''='' @ fmt_v a @ '')'')"

definition printArg :: "iface \<Rightarrow> char \<Rightarrow> string" where
  "printArg a verb =
     (if verb = CHR ''v'' then fmt_v a
      else if verb = CHR ''s'' then
        (case a of IString s \<Rightarrow> s | IBytes bs \<Rightarrow> bs | _ \<Rightarrow> badVerb verb a)
      else badVerb verb a)"

definition extraArg :: "iface \<Rightarrow> string" where
  "extraArg a = (case a of INil \<Rightarrow> ''<nil>'' | _ \<Rightarrow> typeName a @ ''='' @ fmt_v a)"

fun Sprintf :: "string \<Rightarrow> iface list \<Rightarrow> string" where
  "Sprintf [] [] = []"
| "Sprintf [] (a # as) = ''%!(EXTRA '' @ Join (map extraArg (a # as)) '', '' @ '')''"
| "Sprintf (c # cs) as =
     (if c \<noteq> CHR ''%'' then c # Sprintf cs as
      else (case cs of
              [] \<Rightarrow> ''%!(NOVERB)'' @ Sprintf [] as
            | verb # rest \<Rightarrow>
                if verb = CHR ''%'' then CHR ''%'' # Sprintf rest as
                else (case as of
                        [] \<Rightarrow> ''%!'' @ [verb] @ ''(MISSING)'' @ Sprintf rest []
                      | a # as' \<Rightarrow> printArg a verb @ Sprintf rest as')))"

section \<open>Package response\<close>

record BasicResponse =
  code :: int

record ErrorResponse = BasicResponse +
  errString :: string

text \<open>Failed returns the receiver as an error, or nil (\<open>None\<close>).\<close>

definition Failed :: "ErrorResponse \<Rightarrow> ErrorResponse option" where
  "Failed b = (if errString b \<noteq> [] then Some b else None)"

definition NewError :: "ErrorResponse \<Rightarrow> int \<Rightarrow> string \<Rightarrow> iface list \<Rightarrow> ErrorResponse" where
  "NewError b c format vars = b\<lparr>code := c, errString := Sprintf format vars\<rparr>"

definition NewCode :: "'a BasicResponse_scheme \<Rightarrow> int \<Rightarrow> 'a BasicResponse_scheme" where
  "NewCode b c = b\<lparr>code := c\<rparr>"

definition StatusCode :: "'a BasicResponse_scheme \<Rightarrow> int" where
  "StatusCode b = code b"

definition Error :: "ErrorResponse \<Rightarrow> string" where
  "Error b = errString b"

subsection \<open>ExpandedLogging\<close>

text \<open>
  A Go map is a reference. The heap holds the contents of every allocated map under its
  address; \<open>nextAddr\<close> is the first address not yet handed out. A map from string keys
  to \<^verbatim>\<open>interface{}\<close> values distinguishes a key that is absent from a key bound to nil
  (\<open>Some INil\<close>).
\<close>

type_synonym gomap = "string \<rightharpoonup> iface"

record heap =
  store :: "nat \<Rightarrow> gomap"
  nextAddr :: nat

text \<open>\<^verbatim>\<open>make(map[string]interface{})\<close>: a fresh, empty map.\<close>

definition make_map :: "heap \<Rightarrow> heap \<times> nat" where
  "make_map h =
     (h\<lparr>store := (store h)(nextAddr h := Map.empty), nextAddr := Suc (nextAddr h)\<rparr>, nextAddr h)"

text \<open>The field \<open>lvalues\<close> is nil (\<open>None\<close>) or the address of a map. The mutex is not modelled.\<close>

record ExpandedLogging =
  lvalues :: "nat option"

text \<open>The key that Log stores an argument under: \<^verbatim>\<open>fmt.Sprintf("%s", v)\<close>.\<close>

definition logKey :: "iface \<Rightarrow> string" where
  "logKey v = Sprintf ''%s'' [v]"

text \<open>The loop of Log, two arguments at a time, over the arguments still to be read.\<close>

fun Log_loop :: "gomap \<Rightarrow> iface list \<Rightarrow> gomap" where
  "Log_loop m [] = m"
| "Log_loop m [k] = m(logKey k \<mapsto> INil)"
| "Log_loop m (k # v # rest) = Log_loop (m(logKey k \<mapsto> v)) rest"

definition Log :: "heap \<times> ExpandedLogging \<Rightarrow> iface list \<Rightarrow> heap \<times> ExpandedLogging" where
  "Log hl vals =
     (let (h, l) = hl;
          (h1, a) = (case lvalues l of None \<Rightarrow> make_map h | Some a \<Rightarrow> (h, a))
      in (h1\<lparr>store := (store h1)(a := Log_loop (store h1 a) vals)\<rparr>, l\<lparr>lvalues := Some a\<rparr>))"

text \<open>
  GetAll allocates the result and stores every entry of \<open>lvalues\<close> in it; ranging over a
  nil map visits nothing. It returns the heap and the address of the result.
\<close>

definition GetAll :: "heap \<times> ExpandedLogging \<Rightarrow> heap \<times> nat" where
  "GetAll hl =
     (let (h, l) = hl;
          (h1, result) = make_map h;
          entries = (case lvalues l of None \<Rightarrow> Map.empty | Some a \<Rightarrow> store h1 a)
      in (h1\<lparr>store := (store h1)(result := store h1 result ++ entries)\<rparr>, result))"

text \<open>What a logger has accumulated: the contents of its map, nothing while it is nil.\<close>

definition logged :: "heap \<times> ExpandedLogging \<Rightarrow> gomap" where
  "logged hl = (case lvalues (snd hl) of None \<Rightarrow> Map.empty | Some a \<Rightarrow> store (fst hl) a)"

text \<open>The map of a logger is an allocated one.\<close>

definition allocated :: "heap \<times> ExpandedLogging \<Rightarrow> bool" where
  "allocated hl = (case lvalues (snd hl) of None \<Rightarrow> True | Some a \<Rightarrow> a < nextAddr (fst hl))"

text \<open>
  The reading of an argument list as key/value pairs: the arguments at even positions
  are keys, stringified, each paired with the argument after it, and a last argument
  without a partner is paired with nil.
\<close>

fun keyValuePairs :: "iface list \<Rightarrow> (string \<times> iface) list" where
  "keyValuePairs [] = []"
| "keyValuePairs [k] = [(logKey k, INil)]"
| "keyValuePairs (k # v # rest) = (logKey k, v) # keyValuePairs rest"

text \<open>
  A run: a logger with a nil map logs \<^verbatim>\<open>("a", 1, "b")\<close>, then \<^verbatim>\<open>("a", true)\<close>, and
  GetAll is taken.
\<close>

definition emptyHeap :: heap where
  "emptyHeap = \<lparr>store = (\<lambda>_. Map.empty), nextAddr = 0\<rparr>"

definition newLogger :: ExpandedLogging where
  "newLogger = \<lparr>lvalues = None\<rparr>"

section \<open>Packages strings, strconv and net/url\<close>

definition HasPrefix :: "string \<Rightarrow> string \<Rightarrow> bool" where
  "HasPrefix s p = (take (length p) s = p)"

definition HasSuffix :: "string \<Rightarrow> string \<Rightarrow> bool" where
  "HasSuffix s suffix = (length suffix \<le> length s \<and> drop (length s - length suffix) s = suffix)"

fun Contains :: "string \<Rightarrow> string \<Rightarrow> bool" where
  "Contains [] substr = (substr = [])"
| "Contains (c # cs) substr = (HasPrefix (c # cs) substr \<or> Contains cs substr)"

text \<open>
  \<^verbatim>\<open>strings.Replace(s, old, new, -1)\<close> and \<^verbatim>\<open>strings.Split(s, sep)\<close> for a separator
  that is not empty, the only way the repository calls them: both scan from the left and
  take the leftmost occurrence, then go on behind it.
\<close>

function Replace :: "string \<Rightarrow> string \<Rightarrow> string \<Rightarrow> string" where
  "Replace [] old new = []"
| "Replace (c # cs) old new =
     (if old \<noteq> [] \<and> HasPrefix (c # cs) old
      then new @ Replace (drop (length old) (c # cs)) old new
      else c # Replace cs old new)"
  by pat_completeness auto
termination
  by (relation "measure (\<lambda>(s, old, new). length s)") auto

function splitFrom :: "string \<Rightarrow> string \<Rightarrow> string \<Rightarrow> string list" where
  "splitFrom cur [] sep = [cur]"
| "splitFrom cur (c # cs) sep =
     (if sep \<noteq> [] \<and> HasPrefix (c # cs) sep
      then cur # splitFrom [] (drop (length sep) (c # cs)) sep
      else splitFrom (cur @ [c]) cs sep)"
  by pat_completeness auto
termination
  by (relation "measure (\<lambda>(cur, s, sep). length s)") auto

definition Split :: "string \<Rightarrow> string \<Rightarrow> string list" where
  "Split s sep = splitFrom [] s sep"

definition TrimLeft :: "string \<Rightarrow> string \<Rightarrow> string" where
  "TrimLeft s cutset = dropWhile (\<lambda>c. c \<in> set cutset) s"

definition TrimRight :: "string \<Rightarrow> string \<Rightarrow> string" where
  "TrimRight s cutset = rev (dropWhile (\<lambda>c. c \<in> set cutset) (rev s))"

text \<open>strconv.ParseBool: the value and whether the string was accepted (no error).\<close>

definition ParseBool :: "string \<Rightarrow> bool \<times> bool" where
  "ParseBool str =
     (if str \<in> {''1'', ''t'', ''T'', ''TRUE'', ''true'', ''True''} then (True, True)
      else if str \<in> {''0'', ''f'', ''F'', ''FALSE'', ''false'', ''False''} then (False, True)
      else (False, False))"

text \<open>
  url.QueryEscape: letters, digits and \<^verbatim>\<open>- _ . ~\<close> stay, a space becomes a plus sign,
  every other byte becomes a percent sign and two upper-case hexadecimal digits.
\<close>

definition shouldEscape :: "char \<Rightarrow> bool" where
  "shouldEscape c =
     (let n = (of_char c :: nat) in
      \<not> ((97 \<le> n \<and> n \<le> 122) \<or> (65 \<le> n \<and> n \<le> 90) \<or> (48 \<le> n \<and> n \<le> 57)
         \<or> c \<in> {CHR ''-'', CHR ''_'', CHR ''.'', CHR ''~''}))"

definition upperhex :: "nat \<Rightarrow> char" where
  "upperhex n = ''0123456789ABCDEF'' ! (n mod 16)"

definition escapeByte :: "char \<Rightarrow> string" where
  "escapeByte c =
     (if c = CHR '' '' then ''+''
      else if shouldEscape c
        then [CHR ''%'', upperhex ((of_char c :: nat) div 16), upperhex ((of_char c :: nat) mod 16)]
      else [c])"

definition QueryEscape :: "string \<Rightarrow> string" where
  "QueryEscape s = concat (map escapeByte s)"

section \<open>Package reflect\<close>

text \<open>reflect.Kind. \<open>Int0\<close> is reflect.Int, and \<open>Pointer\<close> is reflect.Ptr.\<close>

datatype Kind =
    Invalid | Bool | Int0 | Int8 | Int16 | Int32 | Int64
  | Uint | Uint8 | Uint16 | Uint32 | Uint64 | Uintptr
  | Float32 | Float64 | Complex64 | Complex128
  | Array | Chan | Func | Interface | Map | Pointer | Slice | String | Struct | UnsafePointer

datatype int_kind = KInt | KInt8 | KInt16 | KInt32 | KInt64

datatype uint_kind = KUint | KUint8 | KUint16 | KUint32 | KUint64

datatype float_kind = KFloat32 | KFloat64

datatype complex_kind = KComplex64 | KComplex128

datatype other_kind = KUintptr | KArray | KChan | KFunc | KInterface | KMap | KUnsafePointer

text \<open>A floating-point number: a mantissa and a binary exponent, an infinity, or not a number.\<close>

datatype float = Finite int int | PosInf | NegInf | NaN

text \<open>
  A field of a struct type. \<open>Tag\<close> is the field's tag, parsed into its key/value pairs;
  \<open>Exported\<close> says that the field's name is exported.
\<close>

record StructField =
  Name :: string
  Tag :: "(string \<times> string) list"
  Anonymous :: bool
  Exported :: bool

text \<open>StructTag.Lookup: the value of the first pair with the key.\<close>

definition Lookup :: "(string \<times> string) list \<Rightarrow> string \<Rightarrow> string option" where
  "Lookup tag key = map_of tag key"

text \<open>
  What a reflect.Value holds. \<open>Zero\<close> is the zero Value, the one that is not valid. A
  pointer holds what it points to, and the nil pointer holds \<open>Zero\<close>, which is what Elem
  returns for it. A struct holds its fields in declaration order. The kinds that the
  repository never looks into carry no contents.
\<close>

datatype Value =
    Zero
  | VBool bool
  | VInt int_kind int
  | VUint uint_kind nat
  | VFloat float_kind float
  | VComplex complex_kind float float
  | VString string
  | VSlice "Value list"
  | VPtr Value
  | VStruct "(StructField \<times> Value) list"
  | VOther other_kind

fun kind :: "Value \<Rightarrow> Kind" where
  "kind Zero = Invalid"
| "kind (VBool _) = Bool"
| "kind (VInt k _) =
     (case k of KInt \<Rightarrow> Int0 | KInt8 \<Rightarrow> Int8 | KInt16 \<Rightarrow> Int16 | KInt32 \<Rightarrow> Int32 | KInt64 \<Rightarrow> Int64)"
| "kind (VUint k _) =
     (case k of KUint \<Rightarrow> Uint | KUint8 \<Rightarrow> Uint8 | KUint16 \<Rightarrow> Uint16 | KUint32 \<Rightarrow> Uint32
      | KUint64 \<Rightarrow> Uint64)"
| "kind (VFloat k _) = (case k of KFloat32 \<Rightarrow> Float32 | KFloat64 \<Rightarrow> Float64)"
| "kind (VComplex k _ _) = (case k of KComplex64 \<Rightarrow> Complex64 | KComplex128 \<Rightarrow> Complex128)"
| "kind (VString _) = String"
| "kind (VSlice _) = Slice"
| "kind (VPtr _) = Pointer"
| "kind (VStruct _) = Struct"
| "kind (VOther k) =
     (case k of KUintptr \<Rightarrow> Uintptr | KArray \<Rightarrow> Array | KChan \<Rightarrow> Chan | KFunc \<Rightarrow> Func
      | KInterface \<Rightarrow> Interface | KMap \<Rightarrow> Map | KUnsafePointer \<Rightarrow> UnsafePointer)"

text \<open>
  The flag bits of a reflect.Value that the repository's calls depend on: whether the
  value is addressable, and the two read-only bits, set when the value was reached
  through a field that is not exported (embedded or not).
\<close>

record flags =
  flagAddr :: bool
  flagStickyRO :: bool
  flagEmbedRO :: bool

definition ValueOf_flags :: flags where
  "ValueOf_flags = \<lparr>flagAddr = False, flagStickyRO = False, flagEmbedRO = False\<rparr>"

definition Elem_flags :: "flags \<Rightarrow> flags" where
  "Elem_flags fl = fl\<lparr>flagAddr := True\<rparr>"

definition Field_flags :: "flags \<Rightarrow> StructField \<Rightarrow> flags" where
  "Field_flags fl field =
     \<lparr>flagAddr = flagAddr fl,
      flagStickyRO = (flagStickyRO fl \<or> (\<not> Exported field \<and> \<not> Anonymous field)),
      flagEmbedRO = (\<not> Exported field \<and> Anonymous field)\<rparr>"

definition Index_flags :: "flags \<Rightarrow> flags" where
  "Index_flags fl =
     \<lparr>flagAddr = True, flagStickyRO = (flagStickyRO fl \<or> flagEmbedRO fl), flagEmbedRO = False\<rparr>"

definition CanInterface :: "flags \<Rightarrow> bool" where
  "CanInterface fl = (\<not> flagStickyRO fl \<and> \<not> flagEmbedRO fl)"

definition CanSet :: "flags \<Rightarrow> bool" where
  "CanSet fl = (flagAddr fl \<and> \<not> flagStickyRO fl \<and> \<not> flagEmbedRO fl)"

section \<open>The value converter\<close>

text \<open>
  What the converter calls outside the repository's sources: strconv's formatting of
  floating-point and complex numbers (with format \<^verbatim>\<open>'f'\<close>, precision -1 and the given bit
  size) and json.Marshal, which returns the encoding or an error.
\<close>

record stdlib =
  FormatFloat :: "float \<Rightarrow> nat \<Rightarrow> string"
  FormatComplex :: "float \<times> float \<Rightarrow> nat \<Rightarrow> string"
  Marshal :: "Value \<Rightarrow> string + string"

text \<open>json.Marshal's two results: the bytes, nil on an error, and the error.\<close>

definition json_Marshal :: "'e stdlib_scheme \<Rightarrow> Value \<Rightarrow> string \<times> string option" where
  "json_Marshal env v = (case Marshal env v of Inl err \<Rightarrow> ([], Some err) | Inr body \<Rightarrow> (body, None))"

text \<open>The end of convertBaseValueToString, behind the switch.\<close>

definition escaped :: "bool \<Rightarrow> string \<Rightarrow> string option" where
  "escaped urlEncode result = Some (if urlEncode then QueryEscape result else result)"

text \<open>
  The struct case of the switch: the assignment of the error text is followed by the
  assignment of the bytes, whatever the error was.
\<close>

definition structToString :: "'e stdlib_scheme \<Rightarrow> flags \<Rightarrow> Value \<Rightarrow> string" where
  "structToString env fl src =
     (if CanInterface fl then
        (let (body, err) = json_Marshal env src;
             result = (if err \<noteq> None then ''{ \"error\": \"JSON parse error\" }'' else []);
             result = body
         in result)
      else ''null'')"

text \<open>
  A reflect.Value is a pair of its flags and what it holds. convertSliceToStringValue
  takes the flags of the slice and its elements; its loop is
  \<open>convertSliceToStringValue_loop\<close>, over the elements still to be converted.
\<close>

fun convertBaseValueToString :: "'e stdlib_scheme \<Rightarrow> flags \<times> Value \<Rightarrow> bool \<Rightarrow> string option"
  and convertSliceToStringValue :: "'e stdlib_scheme \<Rightarrow> flags \<times> Value list \<Rightarrow> bool \<Rightarrow> string"
  and convertSliceToStringValue_loop ::
    "'e stdlib_scheme \<Rightarrow> flags \<times> Value list \<Rightarrow> bool \<Rightarrow> string list"
where
  "convertBaseValueToString env (fl, Zero) urlEncode = None"
| "convertBaseValueToString env (fl, VPtr p) urlEncode =
     convertBaseValueToString env (Elem_flags fl, p) urlEncode"
| "convertBaseValueToString env (fl, VString s) urlEncode = escaped urlEncode s"
| "convertBaseValueToString env (fl, VInt k i) urlEncode = escaped urlEncode (FormatInt i)"
| "convertBaseValueToString env (fl, VBool b) urlEncode = escaped urlEncode (FormatBool b)"
| "convertBaseValueToString env (fl, VSlice xs) urlEncode =
     Some (convertSliceToStringValue env (fl, xs) urlEncode)"
| "convertBaseValueToString env (fl, VFloat k f) urlEncode =
     escaped urlEncode
       (FormatFloat env f (case k of KFloat64 \<Rightarrow> 64 | KFloat32 \<Rightarrow> 32))"
| "convertBaseValueToString env (fl, VUint k n) urlEncode = escaped urlEncode (FormatUint n)"
| "convertBaseValueToString env (fl, VComplex k re im) urlEncode =
     escaped urlEncode
       (FormatComplex env (re, im) (case k of KComplex64 \<Rightarrow> 64 | KComplex128 \<Rightarrow> 128))"
| "convertBaseValueToString env (fl, VStruct fs) urlEncode =
     escaped urlEncode (structToString env fl (VStruct fs))"
| "convertBaseValueToString env (fl, VOther k) urlEncode = escaped urlEncode ''?''"
| "convertSliceToStringValue env (fl, xs) urlEncode =
     Join (convertSliceToStringValue_loop env (fl, xs) urlEncode) '',''"
| "convertSliceToStringValue_loop env (fl, []) urlEncode = []"
| "convertSliceToStringValue_loop env (fl, x # xs) urlEncode =
     (case convertBaseValueToString env (Index_flags fl, x) urlEncode of
        None \<Rightarrow> convertSliceToStringValue_loop env (fl, xs) urlEncode
      | Some currentStr \<Rightarrow>
          (if urlEncode then QueryEscape currentStr else currentStr)
            # convertSliceToStringValue_loop env (fl, xs) urlEncode)"

text \<open>
  An environment to run the converter in: stand-ins that print every floating-point
  number as zero, and a json.Marshal that encodes the empty struct and rejects every other
  value the way encoding/json rejects a channel.
\<close>

definition testlib :: stdlib where
  "testlib =
     \<lparr>FormatFloat = (\<lambda>f bitSize. ''0''),
      FormatComplex = (\<lambda>c bitSize. ''(0+0i)''),
      Marshal = (\<lambda>v. case v of VStruct [] \<Rightarrow> Inr ''{}'' | _ \<Rightarrow> Inl ''json: unsupported type'')\<rparr>"

subsection \<open>Pointer chains\<close>

text \<open>A chain of \<open>n\<close> pointers to a value.\<close>

fun ptrChain :: "nat \<Rightarrow> Value \<Rightarrow> Value" where
  "ptrChain 0 v = v"
| "ptrChain (Suc n) v = VPtr (ptrChain n v)"

subsection \<open>Slices\<close>

text \<open>A slice, or a chain of pointers to one: the values that the converter treats as a slice.\<close>

fun sliceLike :: "Value \<Rightarrow> bool" where
  "sliceLike (VSlice xs) = True"
| "sliceLike (VPtr p) = sliceLike p"
| "sliceLike v = False"

text \<open>
  The reading of "every element is encoded twice": each element's plain conversion,
  percent-encoded two times, joined with commas.
\<close>

definition doubleEncoded :: "'e stdlib_scheme \<Rightarrow> flags \<times> Value list \<Rightarrow> string" where
  "doubleEncoded env src =
     Join (map (\<lambda>s. QueryEscape (QueryEscape s))
       (List.map_filter (\<lambda>x. convertBaseValueToString env (Index_flags (fst src), x) False)
          (snd src))) '',''"

section \<open>Requests, responses and errors\<close>

text \<open>The fields of url.URL and http.Request that the repository reads or writes.\<close>

record URL =
  Path :: string
  RawPath :: string
  RawQuery :: string

type_synonym Header = "string \<rightharpoonup> string list"

type_synonym Values = "string \<rightharpoonup> string list"

record Request =
  Method :: string
  URL :: URL
  Header :: Header
  Body :: "string option"

text \<open>
  An error value: one made by fmt.Errorf or by a library, with its message, or the
  anonymous struct around an ErrorResponse that DoGeneratedRequest returns.
\<close>

datatype go_error = Errorf string | ErrorObj ErrorResponse

fun error_msg :: "go_error \<Rightarrow> string" where
  "error_msg (Errorf msg) = msg"
| "error_msg (ErrorObj b) = Error b"

text \<open>A call returns, or it panics.\<close>

datatype 'a outcome = Returns 'a | Panics

text \<open>
  A response: its status code, and what io.ReadAll gives on its body, the bytes or an
  error.
\<close>

record Response =
  RespStatusCode :: int
  RespBody :: "go_error + string"

text \<open>
  The transport of http.DefaultClient: the default one, or the HTTP/2 transport over a TLS
  configuration (a pointer that may be nil). The world holds the client's transport and
  the requests that were handed to a transport, in order.
\<close>

type_synonym tlsConfig = "string option"

datatype Transport = DefaultTransport | HTTP2Transport tlsConfig

record World =
  DefaultClient_Transport :: Transport
  sent :: "(Transport \<times> Request) list"

text \<open>
  What the request side calls outside the sources at hand. Of the repository itself:
  fromSwaggestTag and helpers.GetFriendlyRequestName. Of the standard library: the
  canonical form of a header key, the sanitizers of a cookie's name and value, the
  parsing and encoding of a query string, url.Parse and URL.String, http.NewRequest
  (nil when it returns an error, which the caller drops) and the round trip of a
  transport.
\<close>

record env = stdlib +
  fromSwaggestTag :: "StructField \<Rightarrow> string \<times> string \<times> string \<times> bool"
  GetFriendlyRequestName :: "Value \<Rightarrow> string"
  CanonicalMIMEHeaderKey :: "string \<Rightarrow> string"
  sanitizeCookieName :: "string \<Rightarrow> string"
  sanitizeCookieValue :: "string \<Rightarrow> string"
  URL_Query :: "URL \<Rightarrow> Values"
  Values_Encode :: "Values \<Rightarrow> string"
  url_Parse :: "string \<Rightarrow> string + URL"
  URL_String :: "URL \<Rightarrow> string"
  http_NewRequest :: "string \<Rightarrow> string \<Rightarrow> string option \<Rightarrow> Request option"
  client_Do :: "Transport \<Rightarrow> Request \<Rightarrow> go_error + Response"

definition Header_Get :: "'e env_scheme \<Rightarrow> Header \<Rightarrow> string \<Rightarrow> string" where
  "Header_Get env h key =
     (case h (CanonicalMIMEHeaderKey env key) of None \<Rightarrow> [] | Some [] \<Rightarrow> [] | Some (v # _) \<Rightarrow> v)"

definition Header_Add :: "'e env_scheme \<Rightarrow> Header \<Rightarrow> string \<Rightarrow> string \<Rightarrow> Header" where
  "Header_Add env h key v =
     h(CanonicalMIMEHeaderKey env key \<mapsto>
         (case h (CanonicalMIMEHeaderKey env key) of None \<Rightarrow> [] | Some vs \<Rightarrow> vs) @ [v])"

definition Header_Set :: "'e env_scheme \<Rightarrow> Header \<Rightarrow> string \<Rightarrow> string \<Rightarrow> Header" where
  "Header_Set env h key v = h(CanonicalMIMEHeaderKey env key \<mapsto> [v])"

definition Values_Add :: "Values \<Rightarrow> string \<Rightarrow> string \<Rightarrow> Values" where
  "Values_Add vs key v = vs(key \<mapsto> (case vs key of None \<Rightarrow> [] | Some old \<Rightarrow> old) @ [v])"

text \<open>Request.AddCookie: the cookie joins the Cookie header, behind the cookies already there.\<close>

definition AddCookie :: "'e env_scheme \<Rightarrow> Request \<Rightarrow> string \<Rightarrow> string \<Rightarrow> Request" where
  "AddCookie env r name v =
     (let s = sanitizeCookieName env name @ ''='' @ sanitizeCookieValue env v;
          c = Header_Get env (Header r) ''Cookie''
      in if c \<noteq> [] then r\<lparr>Header := Header_Set env (Header r) ''Cookie'' (c @ ''; '' @ s)\<rparr>
         else r\<lparr>Header := Header_Set env (Header r) ''Cookie'' s\<rparr>)"

section \<open>The tag resolver\<close>

definition readClientTag :: "'e env_scheme \<Rightarrow> StructField \<Rightarrow> string \<times> string \<times> string \<times> string" where
  "readClientTag env field =
     (let encode = (case Lookup (Tag field) ''urlEncode'' of Some tag \<Rightarrow> tag | None \<Rightarrow> []);
          (requestPart, alias, jsonAlias, ok) = fromSwaggestTag env field
      in if ok then (requestPart, alias, jsonAlias, encode)
         else
           (let requestPart =
                  (case Lookup (Tag field) ''request'' of Some tag \<Rightarrow> tag | None \<Rightarrow> requestPart);
                alias = (case Lookup (Tag field) ''alias'' of Some tag \<Rightarrow> tag | None \<Rightarrow> alias);
                jsonAlias =
                  (case Lookup (Tag field) ''json'' of
                     Some tag \<Rightarrow>
                       if tag = ''-,'' then ''-''
                       else (let jsonAlias = hd (Split tag '','')
                             in if jsonAlias = ''-'' then [] else jsonAlias)
                   | None \<Rightarrow> jsonAlias)
            in (requestPart, alias, jsonAlias, encode)))"

text \<open>
  The name a field is written under, as assignRequest works it out in both of its
  branches: the field's name, replaced by the json alias when there is one, replaced by
  the alias when there is one.
\<close>

definition fieldName :: "StructField \<Rightarrow> string \<Rightarrow> string \<Rightarrow> string" where
  "fieldName fieldDesc alias jsonAlias =
     (let fieldName = Name fieldDesc;
          fieldName = (if jsonAlias \<noteq> [] then jsonAlias else fieldName);
          fieldName = (if alias \<noteq> [] then alias else fieldName)
      in fieldName)"

section \<open>The writers\<close>

type_synonym assigned = "(Request option \<times> go_error option) outcome"

definition notSet :: "string option \<Rightarrow> bool" where
  "notSet convertedValue = (convertedValue = None \<or> convertedValue = Some [])"

definition writeRequestCookie ::
  "'e env_scheme \<Rightarrow> Request option \<Rightarrow> string \<Rightarrow> flags \<times> Value \<Rightarrow> bool \<Rightarrow> bool \<Rightarrow> assigned" where
  "writeRequestCookie env r name fieldValue isRequired urlEncode =
     (let convertedValue = convertBaseValueToString env fieldValue urlEncode
      in if isRequired \<and> notSet convertedValue
         then Returns (r, Some (Errorf (''required cookie not found or not set: '' @ name)))
         else (case r of
                 None \<Rightarrow> Panics
               | Some req \<Rightarrow>
                   Returns (Some (AddCookie env req name
                     (case convertedValue of Some v \<Rightarrow> v | None \<Rightarrow> [])), None)))"

definition writeRequestHeader ::
  "'e env_scheme \<Rightarrow> Request option \<Rightarrow> string \<Rightarrow> flags \<times> Value \<Rightarrow> bool \<Rightarrow> bool \<Rightarrow> assigned" where
  "writeRequestHeader env r name fieldValue isRequired urlEncode =
     (let convertedValue = convertBaseValueToString env fieldValue urlEncode
      in if isRequired \<and> notSet convertedValue
         then Returns (r, Some (Errorf (''required header not found or not set: '' @ name)))
         else (case r of
                 None \<Rightarrow> Panics
               | Some req \<Rightarrow>
                   Returns (Some (req\<lparr>Header := Header_Add env (Header req) name
                     (case convertedValue of Some v \<Rightarrow> v | None \<Rightarrow> [])\<rparr>), None)))"

definition writeRequestQueryParam ::
  "'e env_scheme \<Rightarrow> Request option \<Rightarrow> string \<Rightarrow> flags \<times> Value \<Rightarrow> bool \<Rightarrow> bool \<Rightarrow> assigned" where
  "writeRequestQueryParam env r name fieldValue isRequired urlEncode =
     (let convertedValue = convertBaseValueToString env fieldValue False
      in if isRequired \<and> notSet convertedValue
         then Returns (r, Some (Errorf (''required header not found or not set: '' @ name)))
         else (case r of
                 None \<Rightarrow> Panics
               | Some req \<Rightarrow>
                   (let reqQuery = Values_Add (URL_Query env (URL req)) name
                          (case convertedValue of Some v \<Rightarrow> v | None \<Rightarrow> [])
                    in Returns (Some (req\<lparr>URL := (URL req)\<lparr>RawQuery := Values_Encode env reqQuery\<rparr>\<rparr>),
                         None))))"

definition writeRequestBody ::
  "'e env_scheme \<Rightarrow> Request option \<Rightarrow> string \<Rightarrow> flags \<times> Value \<Rightarrow> assigned" where
  "writeRequestBody env r name fieldValue =
     (case r of
        None \<Rightarrow> Panics
      | Some req \<Rightarrow>
          (let req = req\<lparr>Header := Header_Set env (Header req) ''Content-Type'' ''application/json''\<rparr>
           in if CanInterface (fst fieldValue) then
                (let (jsBody, err) = json_Marshal env (snd fieldValue)
                 in case err of
                      Some e \<Rightarrow>
                        Returns (Some req, Some (Errorf (''client generation failed, '' @ e
                          @ '', of client field '' @ name)))
                    | None \<Rightarrow> Returns (Some (req\<lparr>Body := Some jsBody\<rparr>), None))
              else Returns (Some req, Some (Errorf
                (''client generation failed, unable to get body of client field '' @ name)))))"

definition writeRequestPath ::
  "'e env_scheme \<Rightarrow> Request option \<Rightarrow> string \<Rightarrow> flags \<times> Value \<Rightarrow> bool \<Rightarrow> bool \<Rightarrow> assigned" where
  "writeRequestPath env r name fieldValue isRequired urlEncode =
     (let convertedValue = convertBaseValueToString env fieldValue urlEncode
      in if isRequired \<and> notSet convertedValue
         then Returns (r, Some (Errorf (''required path variable not found or not set: '' @ name)))
         else (case r of
                 None \<Rightarrow> Panics
               | Some req \<Rightarrow>
                   (let path = Path (URL req);
                        replaceableString = ''{'' @ name @ ''}''
                    in if \<not> Contains path replaceableString
                       then Returns (r, Some (Errorf (''could not find path variable: '' @ name
                              @ '', in path ['' @ path @ ''], wanted syntax ['' @ replaceableString
                              @ '']'')))
                       else (let path = (case convertedValue of
                                           Some v \<Rightarrow> Replace path replaceableString v
                                         | None \<Rightarrow> Replace (Path (URL req)) replaceableString [])
                             in Returns (Some (req\<lparr>URL := (URL req)\<lparr>Path := path\<rparr>\<rparr>), None)))))"

type_synonym 'e typicalClientRequestWriter =
  "'e env_scheme \<Rightarrow> Request option \<Rightarrow> string \<Rightarrow> flags \<times> Value \<Rightarrow> bool \<Rightarrow> bool \<Rightarrow> assigned"

definition returnClientOperationByTagValue :: "string \<Rightarrow> 'e typicalClientRequestWriter option" where
  "returnClientOperationByTagValue tagName =
     (if tagName = ''cookie'' \<or> tagName = ''cookie!'' then Some writeRequestCookie
      else if tagName = ''header'' \<or> tagName = ''header!'' then Some writeRequestHeader
      else if tagName = ''query'' \<or> tagName = ''query!'' then Some writeRequestQueryParam
      else if tagName = ''path'' \<or> tagName = ''path!'' then Some writeRequestPath
      else None)"

section \<open>The field assigner\<close>

text \<open>The loop that follows a field's pointers while they are not nil.\<close>

fun traverse :: "flags \<times> Value \<Rightarrow> flags \<times> Value" where
  "traverse (fl, VPtr p) = (if p = Zero then (fl, VPtr p) else traverse (Elem_flags fl, p))"
| "traverse (fl, v) = (fl, v)"

text \<open>Value.Field, on the flags of a struct and one of its fields.\<close>

definition Field :: "flags \<Rightarrow> StructField \<times> Value \<Rightarrow> flags \<times> Value" where
  "Field fl f = (Field_flags fl (fst f), snd f)"

text \<open>\<open>fieldVal\<close> as the loop of assignRequest has it when it reads the field's tag.\<close>

definition fieldValue :: "flags \<Rightarrow> StructField \<times> Value \<Rightarrow> flags \<times> Value" where
  "fieldValue fl f =
     (let fieldVal = Field fl f
      in if kind (snd f) = Pointer then traverse fieldVal else fieldVal)"

definition quote :: string where
  "quote = [CHR 0x27]"

text \<open>The answer of assignRequest to a value that is not a struct.\<close>

definition notStruct :: "'e env_scheme \<Rightarrow> Request option \<Rightarrow> flags \<times> Value \<Rightarrow> assigned" where
  "notStruct env r baseVal =
     (if CanInterface (fst baseVal) then
        Returns (r, Some (Errorf (''request object '' @ quote
          @ GetFriendlyRequestName env (snd baseVal) @ quote @ '' must be a Struct type'')))
      else (case r of
              None \<Rightarrow> Panics
            | Some req \<Rightarrow>
                Returns (r, Some (Errorf (''request object must be a Struct type for path ''
                  @ RawPath (URL req))))))"

text \<open>
  assignRequest, and its loop over the fields that are still to be read. The request is
  a pointer that may be nil; a call returns the request as it has left it and its error,
  nil (\<open>None\<close>) or not, or it panics. Value.Type panics on the zero Value.
\<close>

function assignRequest :: "'e env_scheme \<Rightarrow> Request option \<Rightarrow> flags \<times> Value \<Rightarrow> assigned"
  and assignRequest_loop ::
    "'e env_scheme \<Rightarrow> Request option \<Rightarrow> flags \<Rightarrow> (StructField \<times> Value) list \<Rightarrow> assigned"
where
  "assignRequest env r (fl, v) =
     (case v of
        Zero \<Rightarrow> Panics
      | VStruct fs \<Rightarrow> assignRequest_loop env r fl fs
      | _ \<Rightarrow> notStruct env r (fl, v))"
| "assignRequest_loop env r fl [] = Returns (r, None)"
| "assignRequest_loop env r fl (f # rest) =
     (let fieldDesc = fst f;
          fieldVal = fieldValue fl f;
          (requestTag, alias, jsonAlias, encode) = readClientTag env fieldDesc;
          urlEncode = fst (ParseBool encode)
      in if requestTag = [] \<and>
            (kind (snd f) = Struct \<or> (Anonymous fieldDesc \<and> CanSet (fst fieldVal)))
         then assignRequest env r fieldVal
         else if requestTag = ''form'' then
           (case writeRequestBody env r (fieldName fieldDesc alias jsonAlias) fieldVal of
              Panics \<Rightarrow> Panics
            | Returns (r', Some err) \<Rightarrow> Returns (r', Some err)
            | Returns (r', None) \<Rightarrow> assignRequest_loop env r' fl rest)
         else if requestTag \<noteq> [] then
           (case returnClientOperationByTagValue requestTag of
              None \<Rightarrow> Returns (r, Some (Errorf (''unknown '' @ quote @ ''client'' @ quote
                        @ '' operation: '' @ requestTag)))
            | Some operation \<Rightarrow>
                (case operation env r (fieldName fieldDesc alias jsonAlias) fieldVal
                        (HasSuffix requestTag ''!'') urlEncode of
                   Panics \<Rightarrow> Panics
                 | Returns (r', Some err) \<Rightarrow> Returns (r', Some err)
                 | Returns (r', None) \<Rightarrow> assignRequest_loop env r' fl rest))
         else assignRequest_loop env r fl rest)"
  by pat_completeness auto
termination
  apply (relation "measure (\<lambda>x. case x of
          Inl (env, r, flv) \<Rightarrow> 2 * size (snd flv)
        | Inr (env, r, fl, fs) \<Rightarrow> 2 * size (VStruct fs) - 1)")
    apply simp_all
  subgoal for env fl f rest
  proof -
    have "size (snd (traverse (fl', v))) \<le> size v" for fl' v
      by (induction "(fl', v)" arbitrary: fl' v rule: traverse.induct) auto
    from this [of "Field_flags fl (fst f)" "snd f"]
    have "size (snd (fieldValue fl f)) \<le> size (snd f)"
      by (simp add: fieldValue_def Field_def Let_def)
    then show ?thesis by (cases f) simp
  qed
  done

declare assignRequest_loop.simps(2) [simp del]

text \<open>
  An environment to run the request side in, on top of the converter's: no swaggest tags,
  header keys and cookies taken as they are, an empty query, a URL that is its path, a
  NewRequest that accepts every method, and a transport that answers 404.
\<close>

definition testenv :: env where
  "testenv =
     \<lparr>FormatFloat = FormatFloat testlib,
      FormatComplex = FormatComplex testlib,
      Marshal = Marshal testlib,
      fromSwaggestTag = (\<lambda>field. ([], [], [], False)),
      GetFriendlyRequestName = (\<lambda>v. ''request''),
      CanonicalMIMEHeaderKey = (\<lambda>key. key),
      sanitizeCookieName = (\<lambda>n. n),
      sanitizeCookieValue = (\<lambda>v. v),
      URL_Query = (\<lambda>u. Map.empty),
      Values_Encode = (\<lambda>vs. []),
      url_Parse = (\<lambda>rawURL. Inr \<lparr>Path = rawURL, RawPath = [], RawQuery = []\<rparr>),
      URL_String = Path,
      http_NewRequest = (\<lambda>method url body.
        Some \<lparr>Method = method, URL = \<lparr>Path = url, RawPath = [], RawQuery = []\<rparr>,
              Header = Map.empty, Body = body\<rparr>),
      client_Do = (\<lambda>transport req. Inr \<lparr>RespStatusCode = 404, RespBody = Inr ''gone''\<rparr>)\<rparr>"

text \<open>A request to run the assigner on.\<close>

definition getItems :: Request where
  "getItems =
     \<lparr>Method = ''GET'', URL = \<lparr>Path = ''/v1/{id}/x/{id}'', RawPath = [], RawQuery = []\<rparr>,
      Header = Map.empty, Body = None\<rparr>"

subsection \<open>Recursion into nested and embedded structs\<close>

definition innerField :: StructField where
  "innerField = \<lparr>Name = ''Inner'', Tag = [], Anonymous = False, Exported = True\<rparr>"

definition tokenField :: StructField where
  "tokenField =
     \<lparr>Name = ''Token'', Tag = [(''request'', ''header'')], Anonymous = False, Exported = True\<rparr>"

subsection \<open>The json tag\<close>

text \<open>The json alias that readClientTag returns, and the segment of a tag before its first comma.\<close>

definition jsonAliasOf :: "'e env_scheme \<Rightarrow> StructField \<Rightarrow> string" where
  "jsonAliasOf env field = fst (snd (snd (readClientTag env field)))"

definition firstSegment :: "string \<Rightarrow> string" where
  "firstSegment tag = takeWhile (\<lambda>c. c \<noteq> CHR '','') tag"

definition secretField :: "string \<Rightarrow> StructField" where
  "secretField tag =
     \<lparr>Name = ''Secret'', Tag = [(''json'', tag)], Anonymous = False, Exported = True\<rparr>"

subsection \<open>The path writer\<close>

text \<open>No occurrence of \<open>sep\<close> starts inside \<open>cur\<close>, read in front of \<open>s\<close>.\<close>

definition clear :: "string \<Rightarrow> string \<Rightarrow> string \<Rightarrow> bool" where
  "clear cur s sep = (\<forall>i < length cur. \<not> HasPrefix (drop i cur @ s) sep)"

text \<open>The placeholder of a path variable, and what the writer puts in its place.\<close>

definition placeholder :: "string \<Rightarrow> string" where
  "placeholder name = ''{'' @ name @ ''}''"

definition substitute :: "string option \<Rightarrow> string" where
  "substitute convertedValue = (case convertedValue of Some v \<Rightarrow> v | None \<Rightarrow> [])"

definition idValue :: "flags \<times> Value" where
  "idValue = (Elem_flags ValueOf_flags, VInt KInt 42)"

section \<open>The request generator\<close>

text \<open>
  What a request object answers: its route (the result of Info), the result of Validate
  when it is a Validator, whether it is a SkipClientValidation, the two results of Request
  when it is a Requester, whether it is a jsonBody, and what reflect.ValueOf gives for it.
  A nil interface is \<open>None\<close>.
\<close>

record HttpRouteInfo =
  InfoName :: string
  InfoMethod :: string
  InfoPath :: string

record ServiceRequest =
  Info :: HttpRouteInfo
  Validate :: "go_error option option"
  SkipClientValidation :: bool
  RequesterRequest :: "(Request option \<times> go_error option) option"
  jsonBody :: bool
  ValueOf :: Value

text \<open>Value.Elem on a pointer.\<close>

fun Elem :: "flags \<times> Value \<Rightarrow> flags \<times> Value" where
  "Elem (fl, VPtr p) = (Elem_flags fl, p)"
| "Elem (fl, v) = (fl, v)"

text \<open>The validation error that stops the generator, if any.\<close>

definition validationErr :: "ServiceRequest \<Rightarrow> go_error option" where
  "validationErr serviceRequest =
     (case Validate serviceRequest of
        Some result \<Rightarrow> if \<not> SkipClientValidation serviceRequest then result else None
      | None \<Rightarrow> None)"

definition MalformedRequestErr :: go_error where
  "MalformedRequestErr = Errorf ''malformed request''"

definition GenerateClientRequest ::
  "'e env_scheme \<Rightarrow> string \<Rightarrow> ServiceRequest option \<Rightarrow> assigned" where
  "GenerateClientRequest env baseUrl serviceRequest =
     (case serviceRequest of
        None \<Rightarrow> Returns (None, Some (Errorf ''nil client not supported''))
      | Some sr \<Rightarrow>
     (case validationErr sr of
        Some err \<Rightarrow> Returns (None, Some (Errorf (''client validation err: '' @ error_msg err)))
      | None \<Rightarrow>
     (let srPath = InfoPath (Info sr);
          baseUrl = TrimRight baseUrl ''/'';
          srPath = TrimLeft srPath ''/'';
          joinedStr = baseUrl @ ''/'' @ srPath
      in case url_Parse env joinedStr of
        Inl err \<Rightarrow> Returns (None, Some (Errorf (''client generation failed, '' @ err
                     @ '', attempted url: '' @ joinedStr)))
      | Inr u \<Rightarrow>
     (let srMethod = InfoMethod (Info sr)
      in case RequesterRequest sr of
        Some (r, err) \<Rightarrow>
          (case err of
             Some e \<Rightarrow> Returns (None, Some (Errorf (''client generation failed ['' @ joinedStr
                         @ ''] '' @ error_msg e @ '' '' @ error_msg MalformedRequestErr)))
           | None \<Rightarrow>
               (case r of
                  None \<Rightarrow> Panics
                | Some req \<Rightarrow> Returns (Some (req\<lparr>URL := u, Method := srMethod\<rparr>), None)))
      | None \<Rightarrow>
     (let clientValue = (ValueOf_flags, ValueOf sr);
          clientValue = (if kind (snd clientValue) = Pointer then Elem clientValue else clientValue)
      in if kind (snd clientValue) \<noteq> Struct
         then Returns (None, Some (Errorf ''non-struct client not supported''))
         else
     (let srName = InfoName (Info sr)
      in case (if jsonBody sr then json_Marshal env (ValueOf sr) else ([], None)) of
        (body, Some err) \<Rightarrow>
          Returns (None, Some (Errorf (''client generation failed, '' @ err
            @ '', of client '' @ srName)))
      | (body, None) \<Rightarrow>
     (let requestResult =
            (if jsonBody sr then http_NewRequest env srMethod (URL_String env u) (Some body)
             else http_NewRequest env srMethod (URL_String env u) None)
      in case assignRequest env requestResult clientValue of
           Panics \<Rightarrow> Panics
         | Returns (requestResult, Some err) \<Rightarrow>
             Returns (requestResult, Some (Errorf (''client field assignment failed, for client ''
               @ srName @ '': '' @ error_msg err)))
         | Returns (requestResult, None) \<Rightarrow> Returns (requestResult, None))))))))"

section \<open>The request executor\<close>

text \<open>
  What the type of a response object answers, each an optional method on the pointer,
  which may be nil (\<open>None\<close>) and which a method call may change what it points to, or
  panic: NewCode of a CodedResponse, Capture of a CaptureReader (on the body as ReadAll
  would read it), NewError of an ErredResponse, UnmarshalJSON of a json.Unmarshaler, and
  what json.Unmarshal does for the type.
\<close>

record 'r ResponseType =
  CodedResponse :: "(int \<Rightarrow> 'r option \<Rightarrow> 'r option outcome) option"
  CaptureReader :: "((go_error + string) \<Rightarrow> 'r option \<Rightarrow> ('r option \<times> go_error option) outcome) option"
  ErredResponse :: "(int \<Rightarrow> string \<Rightarrow> iface list \<Rightarrow> 'r option \<Rightarrow> 'r option outcome) option"
  Unmarshaler :: "(string \<Rightarrow> 'r option \<Rightarrow> ('r option \<times> go_error option) outcome) option"
  json_Unmarshal :: "string \<Rightarrow> 'r option \<Rightarrow> ('r option \<times> go_error option) outcome"

text \<open>http.StatusText.\<close>

definition StatusText :: "int \<Rightarrow> string" where
  "StatusText c =
     (if c = 100 then ''Continue''
      else if c = 101 then ''Switching Protocols''
      else if c = 102 then ''Processing''
      else if c = 103 then ''Early Hints''
      else if c = 200 then ''OK''
      else if c = 201 then ''Created''
      else if c = 202 then ''Accepted''
      else if c = 203 then ''Non-Authoritative Information''
      else if c = 204 then ''No Content''
      else if c = 205 then ''Reset Content''
      else if c = 206 then ''Partial Content''
      else if c = 207 then ''Multi-Status''
      else if c = 208 then ''Already Reported''
      else if c = 226 then ''IM Used''
      else if c = 300 then ''Multiple Choices''
      else if c = 301 then ''Moved Permanently''
      else if c = 302 then ''Found''
      else if c = 303 then ''See Other''
      else if c = 304 then ''Not Modified''
      else if c = 305 then ''Use Proxy''
      else if c = 307 then ''Temporary Redirect''
      else if c = 308 then ''Permanent Redirect''
      else if c = 400 then ''Bad Request''
      else if c = 401 then ''Unauthorized''
      else if c = 402 then ''Payment Required''
      else if c = 403 then ''Forbidden''
      else if c = 404 then ''Not Found''
      else if c = 405 then ''Method Not Allowed''
      else if c = 406 then ''Not Acceptable''
      else if c = 407 then ''Proxy Authentication Required''
      else if c = 408 then ''Request Timeout''
      else if c = 409 then ''Conflict''
      else if c = 410 then ''Gone''
      else if c = 411 then ''Length Required''
      else if c = 412 then ''Precondition Failed''
      else if c = 413 then ''Request Entity Too Large''
      else if c = 414 then ''Request URI Too Long''
      else if c = 415 then ''Unsupported Media Type''
      else if c = 416 then ''Requested Range Not Satisfiable''
      else if c = 417 then ''Expectation Failed''
      else if c = 418 then ''I'' @ quote @ ''m a teapot''
      else if c = 421 then ''Misdirected Request''
      else if c = 422 then ''Unprocessable Entity''
      else if c = 423 then ''Locked''
      else if c = 424 then ''Failed Dependency''
      else if c = 425 then ''Too Early''
      else if c = 426 then ''Upgrade Required''
      else if c = 428 then ''Precondition Required''
      else if c = 429 then ''Too Many Requests''
      else if c = 431 then ''Request Header Fields Too Large''
      else if c = 451 then ''Unavailable For Legal Reasons''
      else if c = 500 then ''Internal Server Error''
      else if c = 501 then ''Not Implemented''
      else if c = 502 then ''Bad Gateway''
      else if c = 503 then ''Service Unavailable''
      else if c = 504 then ''Gateway Timeout''
      else if c = 505 then ''HTTP Version Not Supported''
      else if c = 506 then ''Variant Also Negotiates''
      else if c = 507 then ''Insufficient Storage''
      else if c = 508 then ''Loop Detected''
      else if c = 510 then ''Not Extended''
      else if c = 511 then ''Network Authentication Required''
      else [])"

type_synonym 'r executed = "(World \<times> 'r option \<times> go_error option) outcome"

text \<open>The context that DoGeneratedRequest puts into its error messages: method and URL.\<close>

definition forRequest :: "'e env_scheme \<Rightarrow> Request \<Rightarrow> string" where
  "forRequest env r = Method r @ '' '' @ URL_String env (URL r)"

text \<open>
  DoGeneratedRequest from the point where the body has been read: the nil check, the
  error receiver, the decoding.
\<close>

definition decodeResponse ::
  "'e env_scheme \<Rightarrow> 'r ResponseType \<Rightarrow> World \<Rightarrow> Request \<Rightarrow> Response \<Rightarrow> bool \<Rightarrow> 'r option
     \<Rightarrow> string \<Rightarrow> 'r executed" where
  "decodeResponse env T w r resp isNil obj body =
     (if isNil then
        (if RespStatusCode resp \<noteq> 200 then
           Returns (w, obj, Some (ErrorObj
             (NewError \<lparr>code = 0, errString = []\<rparr> (RespStatusCode resp)
                (StatusText (RespStatusCode resp)) [IString ''body'', IBytes body])))
         else Returns (w, obj, None))
      else
        (case (case ErredResponse T of
                 Some newError \<Rightarrow>
                   if RespStatusCode resp \<noteq> 200
                   then newError (RespStatusCode resp) ''from response: %s'' [IBytes body] obj
                   else Returns obj
               | None \<Rightarrow> Returns obj) of
           Panics \<Rightarrow> Panics
         | Returns obj \<Rightarrow>
             (case Unmarshaler T of
                Some unmarshalJSON \<Rightarrow>
                  (case unmarshalJSON body obj of
                     Panics \<Rightarrow> Panics
                   | Returns (obj, Some err) \<Rightarrow>
                       Returns (w, obj, Some (Errorf (''unable to decode response body for ''
                         @ forRequest env r @ '' due to '' @ error_msg err)))
                   | Returns (obj, None) \<Rightarrow> Returns (w, obj, None))
              | None \<Rightarrow>
                  (case json_Unmarshal T body obj of
                     Panics \<Rightarrow> Panics
                   | Returns (obj, err) \<Rightarrow> Returns (w, obj, err)))))"

definition DoGeneratedRequest ::
  "'e env_scheme \<Rightarrow> 'r ResponseType \<Rightarrow> World \<Rightarrow> Request option \<Rightarrow> 'r option \<Rightarrow> tlsConfig list
     \<Rightarrow> 'r executed" where
  "DoGeneratedRequest env T w r responseObj tlsConfig =
     (let w = (case tlsConfig of
                 [] \<Rightarrow> w
               | c # _ \<Rightarrow> w\<lparr>DefaultClient_Transport := HTTP2Transport c\<rparr>)
      in case r of
        None \<Rightarrow> Panics
      | Some req \<Rightarrow>
     (let w = w\<lparr>sent := sent w @ [(DefaultClient_Transport w, req)]\<rparr>
      in case client_Do env (DefaultClient_Transport w) req of
        Inl err \<Rightarrow> Returns (w, responseObj, Some err)
      | Inr resp \<Rightarrow>
     (case (case CodedResponse T of
              Some newCode \<Rightarrow> newCode (RespStatusCode resp) responseObj
            | None \<Rightarrow> Returns responseObj) of
        Panics \<Rightarrow> Panics
      | Returns obj \<Rightarrow>
     (case CaptureReader T of
        Some capture \<Rightarrow>
          (case capture (RespBody resp) obj of
             Panics \<Rightarrow> Panics
           | Returns (obj, Some err) \<Rightarrow>
               Returns (w, obj, Some (Errorf (''unable to capture response body for ''
                 @ forRequest env req @ '' due to '' @ error_msg err)))
           | Returns (obj, None) \<Rightarrow> Returns (w, obj, None))
      | None \<Rightarrow>
     (case RespBody resp of
        Inl err \<Rightarrow>
          Returns (w, obj, Some (Errorf (''unable to parse response body for ''
            @ forRequest env req @ '' due to '' @ error_msg err)))
      | Inr body \<Rightarrow> decodeResponse env T w req resp (responseObj = None) obj body)))))"

definition DoRequest ::
  "'e env_scheme \<Rightarrow> 'r ResponseType \<Rightarrow> World \<Rightarrow> string \<Rightarrow> ServiceRequest option \<Rightarrow> 'r option
     \<Rightarrow> tlsConfig list \<Rightarrow> 'r executed" where
  "DoRequest env T w baseUrl clientRequest responseObj tlsConfig =
     (case GenerateClientRequest env baseUrl clientRequest of
        Panics \<Rightarrow> Panics
      | Returns (c, Some err) \<Rightarrow> Returns (w, responseObj, Some err)
      | Returns (c, None) \<Rightarrow> DoGeneratedRequest env T w c responseObj tlsConfig)"

subsection \<open>A nil response object\<close>

text \<open>
  The world after DoGeneratedRequest has handed a request to the transport: the client's
  transport is the HTTP/2 one when a TLS configuration was passed, and the request is the
  last that was sent.
\<close>

definition transportSet :: "World \<Rightarrow> tlsConfig list \<Rightarrow> World" where
  "transportSet w tlsConfig =
     (case tlsConfig of [] \<Rightarrow> w | c # _ \<Rightarrow> w\<lparr>DefaultClient_Transport := HTTP2Transport c\<rparr>)"

definition afterSend :: "World \<Rightarrow> tlsConfig list \<Rightarrow> Request \<Rightarrow> World" where
  "afterSend w tlsConfig req =
     (transportSet w tlsConfig)\<lparr>sent := sent (transportSet w tlsConfig)
        @ [(DefaultClient_Transport (transportSet w tlsConfig), req)]\<rparr>"

text \<open>What the status-code receiver of the response type, if it has one, leaves of a nil pointer.\<close>

definition codedNil :: "'r ResponseType \<Rightarrow> Response \<Rightarrow> 'r option outcome" where
  "codedNil T resp =
     (case CodedResponse T of
        Some newCode \<Rightarrow> newCode (RespStatusCode resp) None
      | None \<Rightarrow> Returns None)"

text \<open>The message of the error object for a status and a body.\<close>

definition statusMessage :: "int \<Rightarrow> string \<Rightarrow> string" where
  "statusMessage status body =
     StatusText status @ ''%!(EXTRA string=body, []uint8='' @ fmt_v (IBytes body) @ '')''"

text \<open>A world where nothing has been sent, and a response type without any of the methods.\<close>

definition quietWorld :: World where
  "quietWorld = \<lparr>DefaultClient_Transport = DefaultTransport, sent = []\<rparr>"

definition plainType :: "unit ResponseType" where
  "plainType =
     \<lparr>CodedResponse = None, CaptureReader = None, ErredResponse = None, Unmarshaler = None,
      json_Unmarshal = (\<lambda>body obj. Returns (obj, None))\<rparr>"

definition failingBody :: env where
  "failingBody =
     testenv\<lparr>client_Do := (\<lambda>transport req.
       Inr \<lparr>RespStatusCode = 404, RespBody = Inl (Errorf ''unexpected EOF'')\<rparr>)\<rparr>"

definition codedType :: "unit ResponseType" where
  "codedType =
     plainType\<lparr>CodedResponse :=
       Some (\<lambda>c obj. case obj of None \<Rightarrow> Panics | Some b \<Rightarrow> Returns (Some b))\<rparr>"

definition capturingType :: "unit ResponseType" where
  "capturingType = plainType\<lparr>CaptureReader := Some (\<lambda>body obj. Returns (obj, None))\<rparr>"

section \<open>Required fields\<close>

subsection \<open>Unset under either encoding\<close>

text \<open>Two lists of segments of the same length, empty at the same places.\<close>

definition sameEmpties :: "string list \<Rightarrow> string list \<Rightarrow> bool" where
  "sameEmpties xs ys = list_all2 (\<lambda>a b. (a = []) = (b = [])) xs ys"

subsection \<open>The walk to a field\<close>

text \<open>The loop recurses into the field: no placement tag, and a struct or a settable embedded field.\<close>

definition descends :: "'e env_scheme \<Rightarrow> flags \<Rightarrow> StructField \<times> Value \<Rightarrow> bool" where
  "descends env fl f =
     (fst (readClientTag env (fst f)) = [] \<and>
      (kind (snd f) = Struct \<or> (Anonymous (fst f) \<and> CanSet (fst (fieldValue fl f)))))"

text \<open>
  The loop gets through the fields \<open>pre\<close>, writing or skipping each without an error and
  without recursing, and leaves the request \<open>r'\<close>: \<open>passes env r fl pre = Some r'\<close>.
\<close>

fun passes ::
  "'e env_scheme \<Rightarrow> Request option \<Rightarrow> flags \<Rightarrow> (StructField \<times> Value) list \<Rightarrow> Request option option"
where
  "passes env r fl [] = Some r"
| "passes env r fl (f # rest) =
     (if descends env fl f then None
      else (case assignRequest_loop env r fl [f] of
              Returns (r', None) \<Rightarrow> passes env r' fl rest
            | _ \<Rightarrow> None))"

text \<open>
  The walk from a struct to the field at a position: the position is the index of a
  field, or the index of a nested or embedded struct field that the loop recurses into
  followed by a position in that struct. The walk arrives when the loop gets through the
  fields before each index. It gives the request at that moment, the flags of the struct
  that has the field, and the field.
\<close>

fun arrive ::
  "'e env_scheme \<Rightarrow> Request option \<Rightarrow> flags \<times> Value \<Rightarrow> nat list
     \<Rightarrow> (Request option \<times> flags \<times> (StructField \<times> Value)) option"
where
  "arrive env r (fl, VStruct fs) (i # position) =
     (if i < length fs then
        (case passes env r fl (take i fs) of
           None \<Rightarrow> None
         | Some r' \<Rightarrow>
             if position = [] then Some (r', fl, fs ! i)
             else if descends env fl (fs ! i)
               then arrive env r' (fieldValue fl (fs ! i)) position
             else None)
      else None)"
| "arrive env r flv position = None"

text \<open>
  A field that is required and not set: its placement tag is one of the four that end in
  an exclamation mark, and its value converts to absent or to the empty string.
\<close>

definition requiredUnset :: "'e env_scheme \<Rightarrow> flags \<Rightarrow> StructField \<times> Value \<Rightarrow> bool" where
  "requiredUnset env fl f =
     (fst (readClientTag env (fst f)) \<in> {''cookie!'', ''header!'', ''query!'', ''path!''} \<and>
      notSet (convertBaseValueToString env (fieldValue fl f) False))"

text \<open>The error of the writer for such a field.\<close>

definition requiredError :: "'e env_scheme \<Rightarrow> StructField \<Rightarrow> go_error" where
  "requiredError env fieldDesc =
     (case readClientTag env fieldDesc of
        (requestTag, alias, jsonAlias, encode) \<Rightarrow>
          Errorf (''required ''
            @ (if requestTag = ''cookie!'' then ''cookie''
               else if requestTag = ''path!'' then ''path variable'' else ''header'')
            @ '' not found or not set: '' @ fieldName fieldDesc alias jsonAlias))"

subsection \<open>From the generator to the network\<close>

text \<open>
  The generator's \<open>clientValue\<close>, \<open>joinedStr\<close> and \<open>requestResult\<close>, and the condition
  under which it gets to the field assignment with the URL \<open>u\<close>: the request object
  passes validation, the joined URL parses to \<open>u\<close>, the object is not a Requester, it is a
  struct or a pointer to one, and it marshals if it is a jsonBody.
\<close>

definition clientValue :: "ServiceRequest \<Rightarrow> flags \<times> Value" where
  "clientValue sr =
     (if kind (ValueOf sr) = Pointer then Elem (ValueOf_flags, ValueOf sr)
      else (ValueOf_flags, ValueOf sr))"

definition joinedStr :: "string \<Rightarrow> ServiceRequest \<Rightarrow> string" where
  "joinedStr baseUrl sr = TrimRight baseUrl ''/'' @ ''/'' @ TrimLeft (InfoPath (Info sr)) ''/''"

definition requestResult :: "'e env_scheme \<Rightarrow> ServiceRequest \<Rightarrow> URL \<Rightarrow> Request option" where
  "requestResult env sr u =
     http_NewRequest env (InfoMethod (Info sr)) (URL_String env u)
       (if jsonBody sr then Some (fst (json_Marshal env (ValueOf sr))) else None)"

definition assigning :: "'e env_scheme \<Rightarrow> string \<Rightarrow> ServiceRequest \<Rightarrow> URL \<Rightarrow> bool" where
  "assigning env baseUrl sr u =
     (validationErr sr = None \<and>
      url_Parse env (joinedStr baseUrl sr) = Inr u \<and>
      RequesterRequest sr = None \<and>
      kind (snd (clientValue sr)) = Struct \<and>
      (jsonBody sr \<longrightarrow> snd (json_Marshal env (ValueOf sr)) = None))"

text \<open>
  A request object \<^verbatim>\<open>&struct { Token string `request:"header!"` }{}\<close> for the route
  \<^verbatim>\<open>GET /v1/items\<close>, with Token left empty.
\<close>

definition requiredToken :: StructField where
  "requiredToken =
     \<lparr>Name = ''Token'', Tag = [(''request'', ''header!'')], Anonymous = False, Exported = True\<rparr>"

definition tokenRequest :: ServiceRequest where
  "tokenRequest =
     \<lparr>Info = \<lparr>InfoName = ''getItems'', InfoMethod = ''GET'', InfoPath = ''/v1/items''\<rparr>,
      Validate = None, SkipClientValidation = False, RequesterRequest = None, jsonBody = False,
      ValueOf = VPtr (VStruct [(requiredToken, VString [])])\<rparr>"

definition itemsURL :: URL where
  "itemsURL = \<lparr>Path = ''http://h/v1/items'', RawPath = [], RawQuery = []\<rparr>"

definition idField :: StructField where
  "idField = \<lparr>Name = ''ID'', Tag = [(''request'', ''path'')], Anonymous = False, Exported = True\<rparr>"

chapter \<open>Properties\<close>

section \<open>Package response\<close>

text \<open>
  Claim C9. Failed returns the response itself as a non-nil error exactly when the stored
  message is not the empty string. A NewError call whose formatted message is empty
  stores the code, and Failed then returns nil.
\<close>

theorem Failed_iff_message_nonempty:
  "(Failed b = Some b) = (errString b \<noteq> []) \<and>
   (Failed b = None) = (errString b = []) \<and>
   (Sprintf format vars = [] \<longrightarrow>
      StatusCode (NewError b c format vars) = c \<and> Failed (NewError b c format vars) = None)"
  by (simp add: Failed_def NewError_def StatusCode_def)

theorem Failed_iff_message_nonempty_witness:
  "Sprintf [] [] = [] \<and>
   StatusCode (NewError \<lparr>code = 0, errString = []\<rparr> 500 [] []) = 500 \<and>
   Failed (NewError \<lparr>code = 0, errString = []\<rparr> 500 [] []) = None \<and>
   Failed \<lparr>code = 404, errString = ''x''\<rparr> = Some \<lparr>code = 404, errString = ''x''\<rparr>"
  using Failed_iff_message_nonempty [of "\<lparr>code = 0, errString = []\<rparr>" "[]" "[]" 500]
    Failed_iff_message_nonempty [of "\<lparr>code = 404, errString = ''x''\<rparr>" "[]" "[]" 0]
  by simp

subsection \<open>ExpandedLogging\<close>

lemma Log_loop_pairs: "Log_loop m vals = m ++ map_of (rev (keyValuePairs vals))"
proof (induction m vals rule: Log_loop.induct)
  case (1 m)
  show ?case by simp
next
  case (2 m k)
  show ?case by (simp add: map_add_def fun_eq_iff)
next
  case (3 m k v rest)
  have "m(logKey k \<mapsto> v) ++ map_of (rev (keyValuePairs rest)) =
        m ++ map_of (rev (keyValuePairs rest) @ [(logKey k, v)])"
    by (simp add: fun_eq_iff map_add_def split: option.splits)
  with 3 show ?case by (simp add: fun_upd_def)
qed

lemma Log_loop_odd:
  "odd (length vals) \<Longrightarrow> Log_loop m vals (logKey (last vals)) = Some INil"
proof (induction m vals rule: Log_loop.induct)
  case (3 m k v rest)
  then have "rest \<noteq> []" by auto
  with 3 show ?case by (simp add: fun_upd_def)
qed simp_all

lemma logged_Log: "logged (Log (h, l) vals) = Log_loop (logged (h, l)) vals"
  by (simp add: logged_def Log_def make_map_def split: option.splits)

lemma allocated_Log: "allocated (h, l) \<Longrightarrow> allocated (Log (h, l) vals)"
  by (simp add: allocated_def Log_def make_map_def split: option.splits)

lemma GetAll_copy:
  assumes "allocated (h, l)" and "GetAll (h, l) = (h', r)"
  shows "store h' r = logged (h, l)" and "lvalues l \<noteq> Some r" and "nextAddr h \<le> r"
    and "r < nextAddr h'" and "logged (h', l) = logged (h, l)"
  using assms
  by (auto simp: GetAll_def make_map_def logged_def allocated_def split: option.splits)

lemma Log_keeps_copy:
  assumes "allocated (h, l)" and "GetAll (h, l) = (h', r)"
  shows "store (fst (Log (h', l) vals)) r = logged (h, l)"
  using assms
  by (auto simp: GetAll_def make_map_def logged_def allocated_def Log_def split: option.splits)

text \<open>
  Claim C10. Log reads its arguments as key/value pairs, keys at the even positions and
  stringified, values at the odd positions: the accumulated mapping is the old one
  overridden by the pairs, a later pair winning over an earlier one with an equal key.
  With an odd number of arguments the last argument becomes a key bound to nil. A later
  Log with an equal key overwrites the earlier value. GetAll returns exactly the
  accumulated mapping, in a newly allocated map that is not the logger's own: the
  logger's mapping is unchanged by GetAll, and a Log after GetAll leaves the copy as it
  was.
\<close>

theorem Log_pairs_GetAll_copy:
  assumes "allocated (h, l)"
  shows "logged (Log (h, l) vals) = logged (h, l) ++ map_of (rev (keyValuePairs vals)) \<and>
    (odd (length vals) \<longrightarrow> logged (Log (h, l) vals) (logKey (last vals)) = Some INil) \<and>
    (logKey k1 = logKey k2 \<longrightarrow>
       logged (Log (Log (h, l) [k1, v1]) [k2, v2]) (logKey k1) = Some v2) \<and>
    allocated (Log (h, l) vals) \<and>
    store (fst (GetAll (h, l))) (snd (GetAll (h, l))) = logged (h, l) \<and>
    lvalues l \<noteq> Some (snd (GetAll (h, l))) \<and>
    nextAddr h \<le> snd (GetAll (h, l)) \<and>
    logged (fst (GetAll (h, l)), l) = logged (h, l) \<and>
    store (fst (Log (fst (GetAll (h, l)), l) later)) (snd (GetAll (h, l))) = logged (h, l)"
proof -
  have a: "logged (Log (h, l) vals) = logged (h, l) ++ map_of (rev (keyValuePairs vals))"
    by (simp add: logged_Log Log_loop_pairs)
  have b: "odd (length vals) \<longrightarrow> logged (Log (h, l) vals) (logKey (last vals)) = Some INil"
    by (simp add: logged_Log Log_loop_odd)
  have c: "logKey k1 = logKey k2 \<longrightarrow>
          logged (Log (Log (h, l) [k1, v1]) [k2, v2]) (logKey k1) = Some v2"
  proof
    assume eq: "logKey k1 = logKey k2"
    obtain h1 l1 where hl: "Log (h, l) [k1, v1] = (h1, l1)" by (cases "Log (h, l) [k1, v1]")
    have "logged (Log (h1, l1) [k2, v2]) = Log_loop (logged (h1, l1)) [k2, v2]"
      by (rule logged_Log)
    then show "logged (Log (Log (h, l) [k1, v1]) [k2, v2]) (logKey k1) = Some v2"
      using eq hl by simp
  qed
  have d: "allocated (Log (h, l) vals)"
    using assms by (rule allocated_Log)
  obtain h' r where g: "GetAll (h, l) = (h', r)" by (cases "GetAll (h, l)")
  have e: "store (fst (GetAll (h, l))) (snd (GetAll (h, l))) = logged (h, l)"
    using GetAll_copy(1) [OF assms g] g by simp
  have f: "lvalues l \<noteq> Some (snd (GetAll (h, l)))"
    using GetAll_copy(2) [OF assms g] g by simp
  have i: "nextAddr h \<le> snd (GetAll (h, l))"
    using GetAll_copy(3) [OF assms g] g by simp
  have j: "logged (fst (GetAll (h, l)), l) = logged (h, l)"
    using GetAll_copy(5) [OF assms g] g by simp
  have k: "store (fst (Log (fst (GetAll (h, l)), l) later)) (snd (GetAll (h, l))) = logged (h, l)"
    using Log_keeps_copy [OF assms g] g by simp
  from a b c d e f i j k show ?thesis by blast
qed

theorem Log_pairs_GetAll_copy_witness:
  "allocated (emptyHeap, newLogger) \<and>
   odd (length [IString ''a'', IInt 1, IString ''b'']) \<and>
   logKey (IString ''a'') = logKey (IString ''a'') \<and>
   logged (Log (emptyHeap, newLogger) [IString ''a'', IInt 1, IString ''b'']) ''a'' = Some (IInt 1) \<and>
   logged (Log (emptyHeap, newLogger) [IString ''a'', IInt 1, IString ''b'']) ''b'' = Some INil \<and>
   logged (Log (Log (emptyHeap, newLogger) [IString ''a'', IInt 1]) [IString ''a'', IBool True]) ''a''
     = Some (IBool True) \<and>
   snd (GetAll (emptyHeap, newLogger)) = 0 \<and>
   store (fst (GetAll (emptyHeap, newLogger))) 0 = Map.empty"
proof -
  have al: "allocated (emptyHeap, newLogger)"
    by (simp add: allocated_def newLogger_def)
  have key: "logKey (IString ''a'') = ''a''" "logKey (IString ''b'') = ''b''"
    by (simp_all add: logKey_def printArg_def)
  have lg: "logged (emptyHeap, newLogger) = Map.empty"
    by (simp add: logged_def newLogger_def)
  note t1 = Log_pairs_GetAll_copy [OF al, of "[IString ''a'', IInt 1, IString ''b'']"
      "IString ''a''" "IString ''a''" "IInt 1" "IBool True" "[]"]
  have g0: "snd (GetAll (emptyHeap, newLogger)) = 0"
    by (simp add: GetAll_def make_map_def emptyHeap_def newLogger_def)
  from t1 al key lg g0 show ?thesis by simp
qed

section \<open>The value converter\<close>

subsection \<open>Pointer chains\<close>

text \<open>
  Claim C8. The converter dereferences a pointer chain of any depth down to the value at
  its end, and a chain that ends in a nil pointer, at whatever level, converts to absent:
  to no string at all, so neither to the string \<^verbatim>\<open>nil\<close> nor to the empty string.
\<close>

theorem convert_nil_chain_absent:
  "convertBaseValueToString env (fl, ptrChain n v) urlEncode =
     convertBaseValueToString env ((Elem_flags ^^ n) fl, v) urlEncode \<and>
   convertBaseValueToString env (fl, ptrChain n (VPtr Zero)) urlEncode = None \<and>
   convertBaseValueToString env (fl, ptrChain n (VPtr Zero)) urlEncode \<noteq> Some ''nil'' \<and>
   convertBaseValueToString env (fl, ptrChain n (VPtr Zero)) urlEncode \<noteq> Some []"
proof -
  have deref: "convertBaseValueToString env (fl, ptrChain n w) urlEncode =
      convertBaseValueToString env ((Elem_flags ^^ n) fl, w) urlEncode" for w
    by (induction n arbitrary: fl) (simp_all add: funpow_swap1)
  have "convertBaseValueToString env (fl, ptrChain n (VPtr Zero)) urlEncode = None"
    by (simp add: deref)
  with deref show ?thesis by simp
qed

subsection \<open>Structs\<close>

lemma structToString_Marshal_error:
  "CanInterface fl \<Longrightarrow> Marshal env v = Inl err \<Longrightarrow> structToString env fl v = []"
  by (simp add: structToString_def json_Marshal_def)

text \<open>
  Claim C2, on a struct with one exported field of a channel type, which json.Marshal
  rejects: the conversion returns the empty string, not the error object
  \<^verbatim>\<open>{ "error": "JSON parse error" }\<close>.
\<close>

theorem convert_struct_Marshal_error_empty:
  "convertBaseValueToString testlib
     (ValueOf_flags,
      VStruct [(\<lparr>Name = ''C'', Tag = [], Anonymous = False, Exported = True\<rparr>, VOther KChan)])
     False = Some [] \<and>
   Marshal testlib
     (VStruct [(\<lparr>Name = ''C'', Tag = [], Anonymous = False, Exported = True\<rparr>, VOther KChan)])
     = Inl ''json: unsupported type''"
  by (simp add: testlib_def escaped_def structToString_def json_Marshal_def CanInterface_def
      ValueOf_flags_def)

subsection \<open>Slices\<close>

lemma slice_loop_segments:
  "convertSliceToStringValue_loop env (fl, xs) urlEncode =
   map (\<lambda>s. if urlEncode then QueryEscape s else s)
     (List.map_filter (\<lambda>x. convertBaseValueToString env (Index_flags fl, x) urlEncode) xs)"
  by (induction xs) (simp_all add: List.map_filter_simps split: option.splits)

lemma convert_escapes_once:
  "\<not> sliceLike x \<Longrightarrow>
   convertBaseValueToString env (fl, x) True =
   map_option QueryEscape (convertBaseValueToString env (fl, x) False)"
  by (induction x arbitrary: fl) (simp_all add: escaped_def)

lemma map_filter_map_option:
  "(\<And>x. x \<in> set xs \<Longrightarrow> f x = map_option g (h x)) \<Longrightarrow>
   List.map_filter f xs = map g (List.map_filter h xs)"
  by (induction xs) (auto simp: List.map_filter_simps split: option.splits)

text \<open>
  Claim C6, as the code has it. Every element is converted on its own, by the converter
  itself and with the same urlEncode flag; an element that converts to absent gives no
  segment; the segments are joined with a plain comma. With urlEncode, every converted
  element is percent-encoded once more before the join, so an element that is not itself
  a slice (or a pointer chain to one) is encoded twice. A slice is returned by the
  converter as joined, so an element that is itself a slice is encoded once at this
  level, behind the encoding of its own elements.
\<close>

theorem convert_slice_segments:
  "convertBaseValueToString env (fl, VSlice xs) urlEncode =
     Some (Join (map (\<lambda>s. if urlEncode then QueryEscape s else s)
       (List.map_filter (\<lambda>x. convertBaseValueToString env (Index_flags fl, x) urlEncode) xs))
       '','') \<and>
   ((\<forall>x \<in> set xs. \<not> sliceLike x) \<longrightarrow>
      convertBaseValueToString env (fl, VSlice xs) True = Some (doubleEncoded env (fl, xs)))"
proof -
  have segs: "convertBaseValueToString env (fl, VSlice xs) e =
      Some (Join (map (\<lambda>s. if e then QueryEscape s else s)
        (List.map_filter (\<lambda>x. convertBaseValueToString env (Index_flags fl, x) e) xs)) '','')"
    for e
    by (simp add: slice_loop_segments)
  have twice: "convertBaseValueToString env (fl, VSlice xs) True = Some (doubleEncoded env (fl, xs))"
    if scalar: "\<forall>x \<in> set xs. \<not> sliceLike x"
  proof -
    have "List.map_filter (\<lambda>x. convertBaseValueToString env (Index_flags fl, x) True) xs =
        map QueryEscape
          (List.map_filter (\<lambda>x. convertBaseValueToString env (Index_flags fl, x) False) xs)"
      using scalar by (intro map_filter_map_option convert_escapes_once) simp
    then show ?thesis
      by (simp add: slice_loop_segments doubleEncoded_def comp_def)
  qed
  from segs twice show ?thesis by blast
qed

theorem convert_slice_segments_witness:
  "\<not> sliceLike (VString ''a b'') \<and> \<not> sliceLike (VPtr Zero) \<and> \<not> sliceLike (VInt KInt 5) \<and>
   convertBaseValueToString testlib
     (ValueOf_flags, VSlice [VString ''a b'', VPtr Zero, VInt KInt 5]) True = Some ''a%2Bb,5'' \<and>
   convertBaseValueToString testlib
     (ValueOf_flags, VSlice [VString ''a b'', VPtr Zero, VInt KInt 5]) False = Some ''a b,5''"
proof -
  have scalar: "\<forall>x \<in> set [VString ''a b'', VPtr Zero, VInt KInt 5]. \<not> sliceLike x"
    by simp
  have five: "FormatInt 5 = ''5''"
    by code_simp
  have esc: "QueryEscape ''a b'' = ''a+b''" "QueryEscape ''a+b'' = ''a%2Bb''" "QueryEscape ''5'' = ''5''"
    by (simp_all add: QueryEscape_def escapeByte_def shouldEscape_def upperhex_def)
  have dbl: "doubleEncoded testlib (ValueOf_flags, [VString ''a b'', VPtr Zero, VInt KInt 5])
      = ''a%2Bb,5''"
    by (simp add: doubleEncoded_def List.map_filter_simps escaped_def five esc)
  have plain: "convertBaseValueToString testlib
      (ValueOf_flags, VSlice [VString ''a b'', VPtr Zero, VInt KInt 5]) False = Some ''a b,5''"
    by (simp add: escaped_def five)
  have twice: "convertBaseValueToString testlib
      (ValueOf_flags, VSlice [VString ''a b'', VPtr Zero, VInt KInt 5]) True =
      Some (doubleEncoded testlib (ValueOf_flags, [VString ''a b'', VPtr Zero, VInt KInt 5]))"
    using convert_slice_segments
      [of testlib ValueOf_flags "[VString ''a b'', VPtr Zero, VInt KInt 5]" True] scalar
    by blast
  have enc: "convertBaseValueToString testlib
      (ValueOf_flags, VSlice [VString ''a b'', VPtr Zero, VInt KInt 5]) True = Some ''a%2Bb,5''"
    by (simp only: twice dbl)
  from enc plain show ?thesis by simp
qed

text \<open>
  The claim as it is written fails on a slice of slices: the inner slice converts, with
  urlEncode, to \<^verbatim>\<open>a,b\<close>, and the outer loop encodes that once.
\<close>

theorem convert_slice_of_slices_once:
  "convertBaseValueToString testlib
     (ValueOf_flags, VSlice [VSlice [VString ''a'', VString ''b'']]) True = Some ''a%2Cb'' \<and>
   doubleEncoded testlib (ValueOf_flags, [VSlice [VString ''a'', VString ''b'']]) = ''a%252Cb'' \<and>
   convertBaseValueToString testlib
     (ValueOf_flags, VSlice [VSlice [VString ''a'', VString ''b'']]) True
     \<noteq> Some (doubleEncoded testlib (ValueOf_flags, [VSlice [VString ''a'', VString ''b'']]))"
proof -
  have esc: "QueryEscape ''a'' = ''a''" "QueryEscape ''b'' = ''b''"
    "QueryEscape ''a,b'' = ''a%2Cb''" "QueryEscape ''a%2Cb'' = ''a%252Cb''"
    by (simp_all add: QueryEscape_def escapeByte_def shouldEscape_def upperhex_def)
  have code: "convertBaseValueToString testlib
      (ValueOf_flags, VSlice [VSlice [VString ''a'', VString ''b'']]) True = Some ''a%2Cb''"
    by (simp add: escaped_def esc)
  have claim: "doubleEncoded testlib (ValueOf_flags, [VSlice [VString ''a'', VString ''b'']])
      = ''a%252Cb''"
    by (simp add: doubleEncoded_def List.map_filter_simps escaped_def esc)
  from code claim show ?thesis by simp
qed

section \<open>The tag resolver\<close>

lemma splitFrom_not_empty: "splitFrom cur s sep \<noteq> []"
  by (induction cur s sep rule: splitFrom.induct) auto

section \<open>The field assigner\<close>

lemmas run_defs = assignRequest_loop.simps(2) readClientTag_def Lookup_def fieldValue_def Field_def
  Field_flags_def Elem_flags_def ValueOf_flags_def CanSet_def CanInterface_def fieldName_def
  returnClientOperationByTagValue_def HasSuffix_def ParseBool_def testenv_def testlib_def
  writeRequestHeader_def writeRequestCookie_def writeRequestPath_def writeRequestQueryParam_def
  writeRequestBody_def notSet_def escaped_def Header_Add_def Header_Set_def Header_Get_def
  AddCookie_def Values_Add_def json_Marshal_def Split_def HasPrefix_def Let_def

subsection \<open>Recursion into nested and embedded structs\<close>

lemma assignRequest_loop_recurses:
  assumes "fst (readClientTag env (fst f)) = []"
    and "kind (snd f) = Struct \<or> (Anonymous (fst f) \<and> CanSet (fst (fieldValue fl f)))"
  shows "assignRequest_loop env r fl (f # rest) = assignRequest env r (fieldValue fl f)"
proof -
  obtain requestTag al jsonAlias encode
    where tag: "readClientTag env (fst f) = (requestTag, al, jsonAlias, encode)"
    by (cases "readClientTag env (fst f)") auto
  with assms(1) have "requestTag = []" by simp
  with tag assms(2) show ?thesis
    by (simp add: assignRequest_loop.simps(2) Let_def)
qed

text \<open>
  Claim C1, on the record
  \<^verbatim>\<open>struct { Inner struct{}; Token string `request:"header"` }\<close> with Token set to
  \<^verbatim>\<open>abc\<close>: the assigner returns nil from the recursion into Inner, and the header Token
  is never written. With the two fields in the other order the header is written.
\<close>

theorem assignRequest_stops_after_recursion:
  "assignRequest testenv (Some getItems)
     (Elem_flags ValueOf_flags, VStruct [(innerField, VStruct []), (tokenField, VString ''abc'')])
     = Returns (Some getItems, None) \<and>
   assignRequest testenv (Some getItems)
     (Elem_flags ValueOf_flags, VStruct [(tokenField, VString ''abc''), (innerField, VStruct [])])
     = Returns (Some (getItems\<lparr>Header := [''Token'' \<mapsto> [''abc'']]\<rparr>), None)"
  by (simp add: run_defs innerField_def tokenField_def getItems_def)

subsection \<open>The json tag\<close>

lemma hd_Split_comma: "hd (Split s '','') = takeWhile (\<lambda>c. c \<noteq> CHR '','') s"
proof -
  have "hd (splitFrom cur s '','') = cur @ takeWhile (\<lambda>c. c \<noteq> CHR '','') s" for cur
    by (induction cur s "'',''" rule: splitFrom.induct) (auto simp: HasPrefix_def)
  then show ?thesis by (simp add: Split_def)
qed

text \<open>
  Claim C3, as the code has it. When fromSwaggestTag does not apply and the field has a
  json tag, the json alias is the tag's first comma-delimited segment, with two
  exceptions: a first segment \<^verbatim>\<open>-\<close> gives no json alias, and the tag \<^verbatim>\<open>-,\<close> gives the
  json alias \<^verbatim>\<open>-\<close>. The name a field is written under is the alias when there is one,
  else the json alias when there is one, else the field's name: so under the tag
  \<^verbatim>\<open>-\<close> it is the alias or the field's name, and under the tag \<^verbatim>\<open>-,\<close> it is the alias or
  \<^verbatim>\<open>-\<close>.
\<close>

theorem readClientTag_json_alias:
  assumes "\<not> snd (snd (snd (fromSwaggestTag env field)))"
    and "Lookup (Tag field) ''json'' = Some tag"
  shows "jsonAliasOf env field =
      (if tag = ''-,'' then ''-'' else if firstSegment tag = ''-'' then [] else firstSegment tag) \<and>
    fieldName field alias (jsonAliasOf env field) =
      (if alias \<noteq> [] then alias
       else if jsonAliasOf env field \<noteq> [] then jsonAliasOf env field else Name field) \<and>
    (tag = ''-'' \<longrightarrow> jsonAliasOf env field = [] \<and>
       fieldName field alias (jsonAliasOf env field) = (if alias \<noteq> [] then alias else Name field)) \<and>
    (tag = ''-,'' \<longrightarrow> jsonAliasOf env field = ''-'' \<and>
       fieldName field alias (jsonAliasOf env field) = (if alias \<noteq> [] then alias else ''-''))"
proof -
  have ja: "jsonAliasOf env field =
      (if tag = ''-,'' then ''-'' else if firstSegment tag = ''-'' then [] else firstSegment tag)"
  proof -
    obtain requestPart al jsonAlias ok
      where sw: "fromSwaggestTag env field = (requestPart, al, jsonAlias, ok)"
      by (cases "fromSwaggestTag env field") auto
    with assms(1) have "\<not> ok" by simp
    with sw assms(2) show ?thesis
      by (simp add: jsonAliasOf_def readClientTag_def firstSegment_def hd_Split_comma Let_def)
  qed
  have fn: "fieldName field alias j =
      (if alias \<noteq> [] then alias else if j \<noteq> [] then j else Name field)" for j
    by (simp add: fieldName_def)
  have dash: "firstSegment ''-'' = ''-''"
    by (simp add: firstSegment_def)
  show ?thesis
    unfolding fn using ja dash by simp
qed

theorem readClientTag_json_alias_witness:
  "jsonAliasOf testenv (secretField ''id,omitempty'') = ''id'' \<and>
   fieldName (secretField ''id,omitempty'') [] (jsonAliasOf testenv (secretField ''id,omitempty''))
     = ''id''"
proof -
  have a: "\<not> snd (snd (snd (fromSwaggestTag testenv (secretField ''id,omitempty''))))"
    by (simp add: testenv_def)
  have b: "Lookup (Tag (secretField ''id,omitempty'')) ''json'' = Some ''id,omitempty''"
    by (simp add: secretField_def Lookup_def)
  have c: "firstSegment ''id,omitempty'' = ''id''"
    by (simp add: firstSegment_def)
  have d: "Name (secretField ''id,omitempty'') = ''Secret''"
    by (simp add: secretField_def)
  note t = readClientTag_json_alias [OF a b, of "[]"]
  have j: "jsonAliasOf testenv (secretField ''id,omitempty'') = ''id''"
    using t by (simp add: c)
  have n: "fieldName (secretField ''id,omitempty'') []
      (jsonAliasOf testenv (secretField ''id,omitempty'')) = ''id''"
    using t by (simp add: j c)
  from j n show ?thesis by blast
qed

text \<open>
  The claim as it is written fails on the tag \<^verbatim>\<open>-,\<close>: the json alias is \<^verbatim>\<open>-\<close>, and
  the field is written under that name, not under its own.
\<close>

theorem readClientTag_dash_comma:
  "readClientTag testenv (secretField ''-,'') = ([], [], ''-'', []) \<and>
   jsonAliasOf testenv (secretField ''-,'') \<noteq> [] \<and>
   fieldName (secretField ''-,'') [] (jsonAliasOf testenv (secretField ''-,'')) = ''-'' \<and>
   readClientTag testenv (secretField ''-'') = ([], [], [], [])"
  by (simp add: run_defs jsonAliasOf_def secretField_def)

subsection \<open>The path writer\<close>

lemma Join_Cons: "ys \<noteq> [] \<Longrightarrow> Join (x # ys) sep = x @ sep @ Join ys sep"
  by (cases ys) simp_all

lemma HasPrefix_decomp: "HasPrefix s p \<Longrightarrow> p @ drop (length p) s = s"
  unfolding HasPrefix_def by (metis append_take_drop_id)

lemma Join_splitFrom_Replace: "Join (splitFrom cur s old) new = cur @ Replace s old new"
  by (induction cur s old rule: splitFrom.induct)
     (auto simp: Join_Cons splitFrom_not_empty)

lemma Replace_Join_Split: "Replace s old new = Join (Split s old) new"
  by (simp add: Split_def Join_splitFrom_Replace)

lemma Join_splitFrom_same: "Join (splitFrom cur s sep) sep = cur @ s"
proof (induction cur s sep rule: splitFrom.induct)
  case (1 cur sep)
  show ?case by simp
next
  case (2 cur c cs sep)
  show ?case
  proof (cases "sep \<noteq> [] \<and> HasPrefix (c # cs) sep")
    case True
    with 2 have "Join (splitFrom [] (drop (length sep) (c # cs)) sep) sep = drop (length sep) (c # cs)"
      by simp
    moreover have "sep @ drop (length sep) (c # cs) = c # cs"
      using True by (simp add: HasPrefix_decomp)
    ultimately show ?thesis using True
      by (simp add: Join_Cons splitFrom_not_empty del: drop_Suc_Cons)
  next
    case False
    with 2 show ?thesis by auto
  qed
qed

lemma Join_Split_same: "Join (Split s sep) sep = s"
  by (simp add: Split_def Join_splitFrom_same)

lemma Contains_iff: "Contains s sub = (\<exists>i \<le> length s. HasPrefix (drop i s) sub)"
proof (induction s)
  case Nil
  show ?case by (auto simp: HasPrefix_def)
next
  case (Cons c cs)
  show ?case
  proof
    assume "Contains (c # cs) sub"
    then consider "HasPrefix (c # cs) sub" | "Contains cs sub" by auto
    then show "\<exists>i \<le> length (c # cs). HasPrefix (drop i (c # cs)) sub"
    proof cases
      case 1
      then have "HasPrefix (drop 0 (c # cs)) sub" by simp
      then show ?thesis by blast
    next
      case 2
      with Cons obtain i where "i \<le> length cs" "HasPrefix (drop i cs) sub" by auto
      then have "Suc i \<le> length (c # cs)" "HasPrefix (drop (Suc i) (c # cs)) sub" by auto
      then show ?thesis by blast
    qed
  next
    assume "\<exists>i \<le> length (c # cs). HasPrefix (drop i (c # cs)) sub"
    then obtain i where i: "i \<le> length (c # cs)" "HasPrefix (drop i (c # cs)) sub" by auto
    show "Contains (c # cs) sub"
    proof (cases i)
      case 0
      with i show ?thesis by simp
    next
      case (Suc j)
      with i have "j \<le> length cs" "HasPrefix (drop j cs) sub" by auto
      with Cons show ?thesis by auto
    qed
  qed
qed

lemma clear_no_prefix:
  assumes "sep \<noteq> []" and "clear cur s sep" and "i \<le> length cur"
  shows "\<not> HasPrefix (drop i cur) sep"
proof (cases "i < length cur")
  case True
  with assms have n: "\<not> HasPrefix (drop i cur @ s) sep" by (simp add: clear_def)
  show ?thesis
  proof
    assume h: "HasPrefix (drop i cur) sep"
    then have "length (take (length sep) (drop i cur)) = length sep"
      unfolding HasPrefix_def by simp
    then have "length sep \<le> length (drop i cur)"
      by simp
    with h have "HasPrefix (drop i cur @ s) sep"
      unfolding HasPrefix_def by simp
    with n show False by simp
  qed
next
  case False
  with assms have "drop i cur = []" by simp
  with assms show ?thesis by (auto simp: HasPrefix_def)
qed

lemma splitFrom_pieces_free:
  "sep \<noteq> [] \<Longrightarrow> clear cur s sep \<Longrightarrow> p \<in> set (splitFrom cur s sep) \<Longrightarrow> \<not> Contains p sep"
proof (induction cur s sep arbitrary: p rule: splitFrom.induct)
  case (1 cur sep)
  then have "p = cur" by simp
  with 1 clear_no_prefix [of sep cur "[]"] show ?case by (simp add: Contains_iff)
next
  case (2 cur c cs sep)
  show ?case
  proof (cases "HasPrefix (c # cs) sep")
    case True
    with 2 consider "p = cur" | "p \<in> set (splitFrom [] (drop (length sep) (c # cs)) sep)"
      by auto
    then show ?thesis
    proof cases
      case 1
      with 2 clear_no_prefix [of sep cur "c # cs"] show ?thesis by (simp add: Contains_iff)
    next
      case b: 2
      have "clear [] (drop (length sep) (c # cs)) sep" by (simp add: clear_def)
      with 2 True b show ?thesis by blast
    qed
  next
    case False
    have "clear (cur @ [c]) cs sep"
      unfolding clear_def
    proof (intro allI impI)
      fix i assume "i < length (cur @ [c])"
      then consider "i < length cur" | "i = length cur" by fastforce
      then show "\<not> HasPrefix (drop i (cur @ [c]) @ cs) sep"
      proof cases
        case 1
        with 2 show ?thesis by (simp add: clear_def)
      next
        case 2
        with False show ?thesis by simp
      qed
    qed
    with 2 False show ?thesis by auto
  qed
qed

lemma Split_pieces_free: "sep \<noteq> [] \<Longrightarrow> p \<in> set (Split s sep) \<Longrightarrow> \<not> Contains p sep"
  unfolding Split_def by (rule splitFrom_pieces_free) (simp_all add: clear_def)

text \<open>
  Claim C5. For a field placed in the path: when the field is required and its converted
  value is absent or empty, the writer returns its error and leaves the request as it
  was. When the placeholder \<^verbatim>\<open>{name}\<close> does not occur in the path, the writer returns
  an error, required or not, and leaves the request as it was. Otherwise the new path is
  the old one with every occurrence of the placeholder replaced by the converted value, or
  by the empty string when the value is absent: the old path is its pieces around the
  placeholders, none of which contains the placeholder, joined by the placeholder, and
  the new path is the same pieces joined by the value.
\<close>

theorem writeRequestPath_placeholder:
  "(isRequired \<and> notSet (convertBaseValueToString env fv urlEncode) \<longrightarrow>
      writeRequestPath env r name fv isRequired urlEncode =
        Returns (r, Some (Errorf (''required path variable not found or not set: '' @ name)))) \<and>
   (\<not> Contains (Path (URL req)) (placeholder name) \<longrightarrow>
      (\<exists>err. writeRequestPath env (Some req) name fv isRequired urlEncode =
        Returns (Some req, Some err))) \<and>
   (\<not> (isRequired \<and> notSet (convertBaseValueToString env fv urlEncode)) \<and>
    Contains (Path (URL req)) (placeholder name) \<longrightarrow>
      writeRequestPath env (Some req) name fv isRequired urlEncode =
        Returns (Some (req\<lparr>URL := (URL req)\<lparr>Path :=
          Join (Split (Path (URL req)) (placeholder name))
            (substitute (convertBaseValueToString env fv urlEncode))\<rparr>\<rparr>), None)) \<and>
   Join (Split (Path (URL req)) (placeholder name)) (placeholder name) = Path (URL req) \<and>
   (\<forall>piece \<in> set (Split (Path (URL req)) (placeholder name)).
      \<not> Contains piece (placeholder name))"
proof -
  have ne: "placeholder name \<noteq> []"
    by (simp add: placeholder_def)
  have required: "isRequired \<and> notSet (convertBaseValueToString env fv urlEncode) \<longrightarrow>
      writeRequestPath env r name fv isRequired urlEncode =
        Returns (r, Some (Errorf (''required path variable not found or not set: '' @ name)))"
    by (simp add: writeRequestPath_def)
  have missing: "\<not> Contains (Path (URL req)) (placeholder name) \<longrightarrow>
      (\<exists>err. writeRequestPath env (Some req) name fv isRequired urlEncode =
        Returns (Some req, Some err))"
    by (simp add: writeRequestPath_def placeholder_def Let_def)
  have replaced: "\<not> (isRequired \<and> notSet (convertBaseValueToString env fv urlEncode)) \<and>
    Contains (Path (URL req)) (placeholder name) \<longrightarrow>
      writeRequestPath env (Some req) name fv isRequired urlEncode =
        Returns (Some (req\<lparr>URL := (URL req)\<lparr>Path :=
          Join (Split (Path (URL req)) (placeholder name))
            (substitute (convertBaseValueToString env fv urlEncode))\<rparr>\<rparr>), None)"
    by (cases "convertBaseValueToString env fv urlEncode")
       (auto simp: writeRequestPath_def placeholder_def substitute_def Let_def
          Replace_Join_Split [symmetric])
  have pieces: "\<forall>piece \<in> set (Split (Path (URL req)) (placeholder name)).
      \<not> Contains piece (placeholder name)"
    using ne by (blast dest: Split_pieces_free)
  from required missing replaced pieces show ?thesis
    by (simp add: Join_Split_same)
qed

theorem writeRequestPath_placeholder_witness:
  "Contains (Path (URL getItems)) (placeholder ''id'') \<and>
   writeRequestPath testenv (Some getItems) ''id'' idValue True False =
     Returns (Some (getItems\<lparr>URL := (URL getItems)\<lparr>Path := ''/v1/42/x/42''\<rparr>\<rparr>), None) \<and>
   notSet (convertBaseValueToString testenv (Elem_flags ValueOf_flags, VPtr Zero) False) \<and>
   writeRequestPath testenv (Some getItems) ''id'' (Elem_flags ValueOf_flags, VPtr Zero) True False =
     Returns (Some getItems, Some (Errorf ''required path variable not found or not set: id'')) \<and>
   \<not> Contains (Path (URL getItems)) (placeholder ''name'')"
proof -
  have conv: "convertBaseValueToString testenv idValue False = Some ''42''"
    unfolding idValue_def by code_simp
  have set: "\<not> notSet (convertBaseValueToString testenv idValue False)"
    by (simp add: conv notSet_def)
  have nil: "notSet (convertBaseValueToString testenv (Elem_flags ValueOf_flags, VPtr Zero) False)"
    by (simp add: notSet_def)
  have has: "Contains (Path (URL getItems)) (placeholder ''id'')"
    by (simp add: getItems_def placeholder_def HasPrefix_def)
  have hasnt: "\<not> Contains (Path (URL getItems)) (placeholder ''name'')"
    by (simp add: getItems_def placeholder_def HasPrefix_def)
  have split: "Join (Split (Path (URL getItems)) (placeholder ''id'')) ''42'' = ''/v1/42/x/42''"
    by (simp add: getItems_def placeholder_def Split_def HasPrefix_def)
  note t = writeRequestPath_placeholder [of True testenv idValue False "Some getItems" "''id''" getItems]
  have a: "writeRequestPath testenv (Some getItems) ''id'' idValue True False =
      Returns (Some (getItems\<lparr>URL := (URL getItems)\<lparr>Path := ''/v1/42/x/42''\<rparr>\<rparr>), None)"
    using t set has by (simp add: conv substitute_def split)
  note u = writeRequestPath_placeholder
    [of True testenv "(Elem_flags ValueOf_flags, VPtr Zero)" False "Some getItems" "''id''" getItems]
  have b: "writeRequestPath testenv (Some getItems) ''id'' (Elem_flags ValueOf_flags, VPtr Zero)
      True False =
      Returns (Some getItems, Some (Errorf ''required path variable not found or not set: id''))"
    using u nil by simp
  from has a nil b hasnt show ?thesis by blast
qed

section \<open>The request executor\<close>

subsection \<open>A nil response object\<close>

lemma Sprintf_no_verb:
  "CHR ''%'' \<notin> set format \<Longrightarrow>
   Sprintf format (a # as) = format @ ''%!(EXTRA '' @ Join (map extraArg (a # as)) '', '' @ '')''"
  by (induction format) auto

lemma fmt_v_string: "fmt_v (IString s) = s"
  by (simp add: fmt_v_def)

lemma StatusText_no_verb: "CHR ''%'' \<notin> set (StatusText c)"
  by (simp add: StatusText_def quote_def)

lemma Contains_prefix: "Contains (p @ s) p"
proof -
  have "HasPrefix (drop 0 (p @ s)) p" by (simp add: HasPrefix_def)
  then show ?thesis unfolding Contains_iff by blast
qed

text \<open>
  Claim C7, as the code has it. Take a request that the transport answers, a nil response
  object whose type is not a CaptureReader and whose NewCode, if it is a CodedResponse,
  returns, and a body that is read without an error. When the status is not 200,
  DoGeneratedRequest returns an error object whose code is the status and whose message
  starts with, and so contains, the status text. When the status is 200 it returns no
  error, right behind the nil check: the response object is as NewCode left it, and the
  world is the one after the send.
\<close>

theorem DoGeneratedRequest_nil_responseObj:
  assumes "client_Do env (DefaultClient_Transport (transportSet w tlsConfig)) req = Inr resp"
    and "CaptureReader T = None"
    and "codedNil T resp = Returns obj"
    and "RespBody resp = Inr body"
  shows "(RespStatusCode resp \<noteq> 200 \<longrightarrow>
      (\<exists>e. DoGeneratedRequest env T w (Some req) None tlsConfig =
           Returns (afterSend w tlsConfig req, obj, Some (ErrorObj e)) \<and>
         StatusCode e = RespStatusCode resp \<and>
         Error e = statusMessage (RespStatusCode resp) body \<and>
         Contains (Error e) (StatusText (RespStatusCode resp)) \<and>
         Failed e = Some e)) \<and>
    (RespStatusCode resp = 200 \<longrightarrow>
      DoGeneratedRequest env T w (Some req) None tlsConfig =
        Returns (afterSend w tlsConfig req, obj, None))"
proof -
  let ?e = "NewError \<lparr>code = 0, errString = []\<rparr> (RespStatusCode resp)
      (StatusText (RespStatusCode resp)) [IString ''body'', IBytes body]"
  have run: "DoGeneratedRequest env T w (Some req) None tlsConfig =
      decodeResponse env T (afterSend w tlsConfig req) req resp True obj body"
    using assms
    by (simp add: DoGeneratedRequest_def afterSend_def transportSet_def codedNil_def Let_def
        split: list.splits)
  have msg: "Error ?e = statusMessage (RespStatusCode resp) body"
    by (simp add: Error_def NewError_def statusMessage_def Sprintf_no_verb StatusText_no_verb
        extraArg_def typeName_def fmt_v_string)
  have has: "Contains (Error ?e) (StatusText (RespStatusCode resp))"
    unfolding msg statusMessage_def by (rule Contains_prefix)
  have code: "StatusCode ?e = RespStatusCode resp"
    by (simp add: StatusCode_def NewError_def)
  have "errString ?e \<noteq> []"
    using msg by (simp add: Error_def statusMessage_def)
  then have failed: "Failed ?e = Some ?e"
    by (simp add: Failed_def)
  have not200: "RespStatusCode resp \<noteq> 200 \<longrightarrow>
      DoGeneratedRequest env T w (Some req) None tlsConfig =
        Returns (afterSend w tlsConfig req, obj, Some (ErrorObj ?e))"
    by (simp add: run decodeResponse_def)
  have is200: "RespStatusCode resp = 200 \<longrightarrow>
      DoGeneratedRequest env T w (Some req) None tlsConfig =
        Returns (afterSend w tlsConfig req, obj, None)"
    by (simp add: run decodeResponse_def)
  from not200 is200 msg has code failed show ?thesis by blast
qed

theorem DoGeneratedRequest_nil_responseObj_witness:
  "client_Do testenv DefaultTransport getItems = Inr \<lparr>RespStatusCode = 404, RespBody = Inr ''gone''\<rparr> \<and>
   (\<exists>e. DoGeneratedRequest testenv plainType quietWorld (Some getItems) None [] =
       Returns (quietWorld\<lparr>sent := [(DefaultTransport, getItems)]\<rparr>, None, Some (ErrorObj e)) \<and>
      StatusCode e = 404 \<and>
      Error e = ''Not Found%!(EXTRA string=body, []uint8=[103 111 110 101])'')"
proof -
  let ?resp = "\<lparr>RespStatusCode = 404, RespBody = Inr ''gone''\<rparr>"
  have ts: "transportSet quietWorld [] = quietWorld"
    by (simp add: transportSet_def)
  have a: "client_Do testenv (DefaultClient_Transport (transportSet quietWorld [])) getItems = Inr ?resp"
    by (simp add: testenv_def)
  have b: "CaptureReader plainType = None"
    by (simp add: plainType_def)
  have c: "codedNil plainType ?resp = Returns None"
    by (simp add: codedNil_def plainType_def)
  have d: "RespBody ?resp = Inr ''gone''"
    by simp
  have w: "afterSend quietWorld [] getItems = quietWorld\<lparr>sent := [(DefaultTransport, getItems)]\<rparr>"
    by (simp add: afterSend_def ts) (simp add: quietWorld_def)
  have bytes: "fmt_v (IBytes ''gone'') = ''[103 111 110 101]''"
    by code_simp
  have m: "statusMessage 404 ''gone'' = ''Not Found%!(EXTRA string=body, []uint8=[103 111 110 101])''"
    by (simp add: statusMessage_def StatusText_def bytes)
  from DoGeneratedRequest_nil_responseObj [OF a b c d] w m
  have "\<exists>e. DoGeneratedRequest testenv plainType quietWorld (Some getItems) None [] =
       Returns (quietWorld\<lparr>sent := [(DefaultTransport, getItems)]\<rparr>, None, Some (ErrorObj e)) \<and>
      StatusCode e = 404 \<and>
      Error e = ''Not Found%!(EXTRA string=body, []uint8=[103 111 110 101])''"
    by auto
  moreover have "client_Do testenv DefaultTransport getItems = Inr ?resp"
    by (simp add: testenv_def)
  ultimately show ?thesis by blast
qed

text \<open>
  The claim as it is written fails for a response type that is a CaptureReader: Capture
  is called and DoGeneratedRequest returns its result, here nil, for a 404 as well. It
  also fails when the body cannot be read, where the read error is returned, and when
  NewCode panics on the nil pointer.
\<close>

theorem DoGeneratedRequest_nil_capture:
  "client_Do testenv DefaultTransport getItems = Inr \<lparr>RespStatusCode = 404, RespBody = Inr ''gone''\<rparr> \<and>
   DoGeneratedRequest testenv capturingType quietWorld (Some getItems) None [] =
     Returns (quietWorld\<lparr>sent := [(DefaultTransport, getItems)]\<rparr>, None, None) \<and>
   DoGeneratedRequest failingBody plainType quietWorld (Some getItems) None [] =
     Returns (quietWorld\<lparr>sent := [(DefaultTransport, getItems)]\<rparr>, None,
       Some (Errorf ''unable to parse response body for GET /v1/{id}/x/{id} due to unexpected EOF'')) \<and>
   DoGeneratedRequest testenv codedType quietWorld (Some getItems) None [] = Panics"
  by (simp add: DoGeneratedRequest_def capturingType_def plainType_def codedType_def testenv_def
      failingBody_def quietWorld_def forRequest_def getItems_def)

section \<open>Required fields\<close>

subsection \<open>Unset under either encoding\<close>

lemma escapeByte_not_empty: "escapeByte c \<noteq> []"
  by (simp add: escapeByte_def)

lemma QueryEscape_empty_iff: "(QueryEscape s = []) = (s = [])"
  by (cases s) (simp_all add: QueryEscape_def escapeByte_not_empty)

lemma Join_empty_iff: "sep \<noteq> [] \<Longrightarrow> (Join xs sep = []) = (xs = [] \<or> xs = [[]])"
  by (induction xs sep rule: Join.induct) auto

lemma sameEmpties_Join:
  assumes "sameEmpties xs ys"
  shows "(Join (map QueryEscape xs) '','' = []) = (Join ys '','' = [])"
proof -
  from assms have len: "length xs = length ys"
    by (simp add: sameEmpties_def list_all2_lengthD)
  have "(map QueryEscape xs = [[]]) = (ys = [[]])"
  proof (cases xs)
    case Nil
    with len show ?thesis by auto
  next
    case (Cons a as)
    with len obtain b bs where ys: "ys = b # bs" by (cases ys) auto
    with Cons assms len have "(a = []) = (b = [])" "length as = length bs"
      by (simp_all add: sameEmpties_def)
    with Cons ys show ?thesis by (auto simp: QueryEscape_empty_iff)
  qed
  moreover from len have "(xs = []) = (ys = [])" by auto
  ultimately show ?thesis by (simp add: Join_empty_iff)
qed

lemma convert_unset_either:
  "((convertBaseValueToString env (fl, v) True = None) =
      (convertBaseValueToString env (fl, v) False = None)) \<and>
   ((convertBaseValueToString env (fl, v) True = Some []) =
      (convertBaseValueToString env (fl, v) False = Some []))"
proof (induction v arbitrary: fl)
  case (VSlice xs)
  have "sameEmpties
      (List.map_filter (\<lambda>x. convertBaseValueToString env (Index_flags fl, x) True) xs)
      (List.map_filter (\<lambda>x. convertBaseValueToString env (Index_flags fl, x) False) xs)"
    using VSlice
  proof (induction xs)
    case Nil
    show ?case by (simp add: sameEmpties_def List.map_filter_simps)
  next
    case (Cons x xs)
    then have tl: "sameEmpties
        (List.map_filter (\<lambda>x. convertBaseValueToString env (Index_flags fl, x) True) xs)
        (List.map_filter (\<lambda>x. convertBaseValueToString env (Index_flags fl, x) False) xs)"
      by simp
    from Cons.prems [of x "Index_flags fl"]
    have hd: "(convertBaseValueToString env (Index_flags fl, x) True = None) =
          (convertBaseValueToString env (Index_flags fl, x) False = None)"
        "(convertBaseValueToString env (Index_flags fl, x) True = Some []) =
          (convertBaseValueToString env (Index_flags fl, x) False = Some [])"
      by simp_all
    show ?case
    proof (cases "convertBaseValueToString env (Index_flags fl, x) True")
      case None
      with hd tl show ?thesis by (simp add: List.map_filter_simps)
    next
      case (Some a)
      with hd obtain b where b: "convertBaseValueToString env (Index_flags fl, x) False = Some b"
        by (cases "convertBaseValueToString env (Index_flags fl, x) False") auto
      with Some hd tl show ?thesis
        by (auto simp: List.map_filter_simps sameEmpties_def)
    qed
  qed
  then show ?case
    by (simp add: slice_loop_segments sameEmpties_Join)
qed (simp_all add: escaped_def QueryEscape_empty_iff)

lemma notSet_either:
  "notSet (convertBaseValueToString env flv urlEncode) = notSet (convertBaseValueToString env flv False)"
  using convert_unset_either [of env "fst flv" "snd flv"]
  by (cases urlEncode) (simp_all add: notSet_def)

subsection \<open>The walk to a field\<close>

lemma assignRequest_loop_required:
  assumes "requiredUnset env fl f"
  shows "assignRequest_loop env r fl (f # rest) = Returns (r, Some (requiredError env (fst f)))"
proof -
  obtain requestTag al jsonAlias encode
    where tag: "readClientTag env (fst f) = (requestTag, al, jsonAlias, encode)"
    by (cases "readClientTag env (fst f)") auto
  with assms have known: "requestTag \<in> {''cookie!'', ''header!'', ''query!'', ''path!''}"
    by (simp add: requiredUnset_def)
  from assms have unset: "notSet (convertBaseValueToString env (fieldValue fl f) e)" for e
    using notSet_either [of env "fieldValue fl f" e] by (simp add: requiredUnset_def)
  from known consider "requestTag = ''cookie!''" | "requestTag = ''header!''"
    | "requestTag = ''query!''" | "requestTag = ''path!''"
    by auto
  then show ?thesis
  proof cases
    case 1
    with tag unset show ?thesis
      by (simp add: assignRequest_loop.simps(2) requiredError_def
          returnClientOperationByTagValue_def writeRequestCookie_def HasSuffix_def)
  next
    case 2
    with tag unset show ?thesis
      by (simp add: assignRequest_loop.simps(2) requiredError_def
          returnClientOperationByTagValue_def writeRequestHeader_def HasSuffix_def)
  next
    case 3
    with tag unset show ?thesis
      by (simp add: assignRequest_loop.simps(2) requiredError_def
          returnClientOperationByTagValue_def writeRequestQueryParam_def HasSuffix_def)
  next
    case 4
    with tag unset show ?thesis
      by (simp add: assignRequest_loop.simps(2) requiredError_def
          returnClientOperationByTagValue_def writeRequestPath_def HasSuffix_def)
  qed
qed

lemma assignRequest_loop_step:
  assumes "\<not> descends env fl f"
  shows "assignRequest_loop env r fl (f # rest) =
    (case assignRequest_loop env r fl [f] of
       Returns (r', None) \<Rightarrow> assignRequest_loop env r' fl rest
     | Returns (r', Some err) \<Rightarrow> Returns (r', Some err)
     | Panics \<Rightarrow> Panics)"
proof -
  obtain requestTag al jsonAlias encode
    where tag: "readClientTag env (fst f) = (requestTag, al, jsonAlias, encode)"
    by (cases "readClientTag env (fst f)") auto
  with assms have no: "\<not> (requestTag = [] \<and>
      (kind (snd f) = Struct \<or> (Anonymous (fst f) \<and> CanSet (fst (fieldValue fl f)))))"
    by (simp add: descends_def)
  show ?thesis
  proof (cases "requestTag = []")
    case True
    with tag no show ?thesis
      by (auto simp: assignRequest_loop.simps(2) Let_def)
  next
    case tagged: False
    show ?thesis
    proof (cases "requestTag = ''form''")
      case True
      with tag show ?thesis
        by (simp add: assignRequest_loop.simps(2) Let_def
            split: outcome.splits option.splits prod.splits)
    next
      case False
      with tag tagged show ?thesis
        by (simp add: assignRequest_loop.simps(2) Let_def
            split: outcome.splits option.splits prod.splits)
    qed
  qed
qed

lemma assignRequest_loop_passes:
  "passes env r fl pre = Some r' \<Longrightarrow>
   assignRequest_loop env r fl (pre @ rest) = assignRequest_loop env r' fl rest"
proof (induction pre arbitrary: r)
  case Nil
  then show ?case by simp
next
  case (Cons f pre)
  from Cons.prems have no: "\<not> descends env fl f"
    by (auto split: if_splits)
  with Cons.prems obtain r1 where
    one: "assignRequest_loop env r fl [f] = Returns (r1, None)" and
    more: "passes env r1 fl pre = Some r'"
    by (auto split: outcome.splits option.splits prod.splits)
  from assignRequest_loop_step [OF no, of r "pre @ rest"] one
  have "assignRequest_loop env r fl ((f # pre) @ rest) = assignRequest_loop env r1 fl (pre @ rest)"
    by simp
  with Cons.IH [OF more] show ?case by simp
qed

lemma arrive_required:
  "arrive env r flv position = Some (r', fl', f) \<Longrightarrow> requiredUnset env fl' f \<Longrightarrow>
   assignRequest env r flv = Returns (r', Some (requiredError env (fst f)))"
proof (induction env r flv position rule: arrive.induct)
  case (1 env r fl fs i position)
  from "1.prems" have i: "i < length fs"
    by (auto split: if_splits)
  with "1.prems" obtain r1 where pre: "passes env r fl (take i fs) = Some r1"
    by (auto split: option.splits)
  have fs: "fs = take i fs @ fs ! i # drop (Suc i) fs"
    using i by (simp add: id_take_nth_drop)
  have loop: "assignRequest_loop env r fl fs = assignRequest_loop env r1 fl (fs ! i # drop (Suc i) fs)"
    using assignRequest_loop_passes [OF pre, of "fs ! i # drop (Suc i) fs"] fs by simp
  show ?case
  proof (cases "position = []")
    case True
    with "1.prems" i pre have "r' = r1" "fl' = fl" "f = fs ! i"
      by simp_all
    with "1.prems" loop assignRequest_loop_required [of env fl "fs ! i" r1 "drop (Suc i) fs"]
    show ?thesis by simp
  next
    case False
    with "1.prems" i pre have down: "descends env fl (fs ! i)"
      and rec: "arrive env r1 (fieldValue fl (fs ! i)) position = Some (r', fl', f)"
      by (auto split: if_splits)
    from down have "assignRequest_loop env r1 fl (fs ! i # drop (Suc i) fs) =
        assignRequest env r1 (fieldValue fl (fs ! i))"
      by (intro assignRequest_loop_recurses) (simp_all add: descends_def)
    moreover have "assignRequest env r1 (fieldValue fl (fs ! i)) =
        Returns (r', Some (requiredError env (fst f)))"
      using "1.IH" [OF i pre False down rec] "1.prems" by simp
    ultimately show ?thesis using loop by simp
  qed
qed simp_all

subsection \<open>From the generator to the network\<close>

lemma GenerateClientRequest_assigning:
  assumes "assigning env baseUrl sr u"
  shows "GenerateClientRequest env baseUrl (Some sr) =
    (case assignRequest env (requestResult env sr u) (clientValue sr) of
       Panics \<Rightarrow> Panics
     | Returns (rr, Some err) \<Rightarrow>
         Returns (rr, Some (Errorf (''client field assignment failed, for client ''
           @ InfoName (Info sr) @ '': '' @ error_msg err)))
     | Returns (rr, None) \<Rightarrow> Returns (rr, None))"
proof (cases "jsonBody sr")
  case True
  with assms obtain body where "json_Marshal env (ValueOf sr) = (body, None)"
    by (cases "json_Marshal env (ValueOf sr)") (auto simp: assigning_def)
  with assms True show ?thesis
    by (simp add: GenerateClientRequest_def assigning_def joinedStr_def clientValue_def
        requestResult_def Let_def)
next
  case False
  with assms show ?thesis
    by (simp add: GenerateClientRequest_def assigning_def joinedStr_def clientValue_def
        requestResult_def Let_def)
qed

text \<open>
  Claim C4, as the code has it. When the generator gets to the field assignment and the
  walk of the assigner arrives at a field that is required and not set, DoRequest returns
  the writer's error, wrapped with the name of the request object, and the world is
  unchanged: no request was handed to a transport. The message of the writer's error
  starts with \<^verbatim>\<open>required\<close> and says \<^verbatim>\<open>not found or not set\<close>.
\<close>

theorem DoRequest_required_not_set:
  assumes "assigning env baseUrl sr u"
    and "arrive env (requestResult env sr u) (clientValue sr) position = Some (r', fl', f)"
    and "requiredUnset env fl' f"
  shows "DoRequest env T w baseUrl (Some sr) responseObj tlsConfig =
      Returns (w, responseObj, Some (Errorf (''client field assignment failed, for client ''
        @ InfoName (Info sr) @ '': '' @ error_msg (requiredError env (fst f))))) \<and>
    HasPrefix (error_msg (requiredError env (fst f))) ''required '' \<and>
    (\<exists>what. error_msg (requiredError env (fst f)) =
       ''required '' @ what @ '' not found or not set: ''
         @ fieldName (fst f) (fst (snd (readClientTag env (fst f))))
             (fst (snd (snd (readClientTag env (fst f))))))"
proof -
  have "assignRequest env (requestResult env sr u) (clientValue sr) =
      Returns (r', Some (requiredError env (fst f)))"
    using assms(2,3) by (rule arrive_required)
  with GenerateClientRequest_assigning [OF assms(1)]
  have "GenerateClientRequest env baseUrl (Some sr) =
      Returns (r', Some (Errorf (''client field assignment failed, for client ''
        @ InfoName (Info sr) @ '': '' @ error_msg (requiredError env (fst f)))))"
    by simp
  then have run: "DoRequest env T w baseUrl (Some sr) responseObj tlsConfig =
      Returns (w, responseObj, Some (Errorf (''client field assignment failed, for client ''
        @ InfoName (Info sr) @ '': '' @ error_msg (requiredError env (fst f)))))"
    by (simp add: DoRequest_def)
  obtain requestTag al jsonAlias encode
    where tag: "readClientTag env (fst f) = (requestTag, al, jsonAlias, encode)"
    by (cases "readClientTag env (fst f)") auto
  then have msg: "error_msg (requiredError env (fst f)) =
      ''required ''
        @ (if requestTag = ''cookie!'' then ''cookie''
           else if requestTag = ''path!'' then ''path variable'' else ''header'')
        @ '' not found or not set: '' @ fieldName (fst f) al jsonAlias"
    by (simp add: requiredError_def)
  then have pre: "HasPrefix (error_msg (requiredError env (fst f))) ''required ''"
    by (simp add: HasPrefix_def)
  from msg tag have "\<exists>what. error_msg (requiredError env (fst f)) =
       ''required '' @ what @ '' not found or not set: ''
         @ fieldName (fst f) (fst (snd (readClientTag env (fst f))))
             (fst (snd (snd (readClientTag env (fst f)))))"
    by (intro exI [of _ "if requestTag = ''cookie!'' then ''cookie''
           else if requestTag = ''path!'' then ''path variable'' else ''header''"]) simp
  with run pre show ?thesis by blast
qed

theorem DoRequest_required_not_set_witness:
  "DoRequest testenv plainType quietWorld ''http://h/'' (Some tokenRequest) None [] =
     Returns (quietWorld, None, Some (Errorf
       ''client field assignment failed, for client getItems: required header not found or not set: Token''))"
proof -
  have tag: "readClientTag testenv requiredToken = (''header!'', [], [], [])"
    by (simp add: readClientTag_def testenv_def requiredToken_def Lookup_def)
  have cv: "clientValue tokenRequest = (Elem_flags ValueOf_flags, VStruct [(requiredToken, VString [])])"
    by (simp add: clientValue_def tokenRequest_def)
  have a: "assigning testenv ''http://h/'' tokenRequest itemsURL"
    by (simp add: assigning_def cv)
       (simp add: tokenRequest_def validationErr_def joinedStr_def TrimRight_def TrimLeft_def
          testenv_def itemsURL_def)
  have b: "arrive testenv (requestResult testenv tokenRequest itemsURL) (clientValue tokenRequest) [0]
      = Some (requestResult testenv tokenRequest itemsURL, Elem_flags ValueOf_flags,
          (requiredToken, VString []))"
    by (simp add: cv)
  have c: "requiredUnset testenv (Elem_flags ValueOf_flags) (requiredToken, VString [])"
    by (simp add: requiredUnset_def tag fieldValue_def Field_def escaped_def notSet_def)
  have msg: "error_msg (requiredError testenv requiredToken) =
      ''required header not found or not set: Token''"
  proof -
    have "fieldName requiredToken [] [] = ''Token''"
      by (simp add: fieldName_def requiredToken_def)
    then show ?thesis
      by (simp add: requiredError_def tag)
  qed
  have name: "InfoName (Info tokenRequest) = ''getItems''"
    by (simp add: tokenRequest_def)
  from DoRequest_required_not_set [OF a b c, of plainType quietWorld None "[]"]
  show ?thesis by (simp add: msg name)
qed

text \<open>
  The claim as it is written fails for a request object that is a Requester: its fields
  are never read, and the request it has built is sent. It also fails when a field before
  the required one fails, where that field's error is returned, and when the validation
  of the request object fails, where the validation error is returned.
\<close>

theorem DoRequest_required_Requester:
  "DoRequest testenv plainType quietWorld ''http://h/''
     (Some (tokenRequest\<lparr>RequesterRequest := Some (Some getItems, None)\<rparr>)) None [] =
     Returns (quietWorld\<lparr>sent := [(DefaultTransport, getItems\<lparr>URL := itemsURL, Method := ''GET''\<rparr>)]\<rparr>,
       None,
       Some (ErrorObj \<lparr>code = 404,
         errString = ''Not Found%!(EXTRA string=body, []uint8=[103 111 110 101])''\<rparr>)) \<and>
   DoRequest testenv plainType quietWorld ''http://h/''
     (Some (tokenRequest\<lparr>ValueOf :=
        VPtr (VStruct [(idField, VString ''7''), (requiredToken, VString [])])\<rparr>)) None [] =
     Returns (quietWorld, None, Some (Errorf
       (''client field assignment failed, for client getItems: could not find path variable: ID, ''
        @ ''in path [http://h/v1/items], wanted syntax [{ID}]''))) \<and>
   DoRequest testenv plainType quietWorld ''http://h/''
     (Some (tokenRequest\<lparr>Validate := Some (Some (Errorf ''no token''))\<rparr>)) None [] =
     Returns (quietWorld, None, Some (Errorf ''client validation err: no token''))"
proof -
  have bytes: "fmt_v (IBytes ''gone'') = ''[103 111 110 101]''"
    by code_simp
  have gen: "GenerateClientRequest testenv ''http://h/''
      (Some (tokenRequest\<lparr>RequesterRequest := Some (Some getItems, None)\<rparr>)) =
      Returns (Some (getItems\<lparr>URL := itemsURL, Method := ''GET''\<rparr>), None)"
    by (simp add: GenerateClientRequest_def tokenRequest_def validationErr_def TrimRight_def
        TrimLeft_def testenv_def itemsURL_def)
  have run: "DoGeneratedRequest testenv plainType quietWorld
      (Some (getItems\<lparr>URL := itemsURL, Method := ''GET''\<rparr>)) None [] =
      Returns (quietWorld\<lparr>sent := [(DefaultTransport, getItems\<lparr>URL := itemsURL, Method := ''GET''\<rparr>)]\<rparr>,
       None,
       Some (ErrorObj \<lparr>code = 404,
         errString = ''Not Found%!(EXTRA string=body, []uint8=[103 111 110 101])''\<rparr>))"
    by (simp add: DoGeneratedRequest_def decodeResponse_def plainType_def testenv_def
        quietWorld_def NewError_def StatusText_def extraArg_def typeName_def fmt_v_string bytes)
  have first: "DoRequest testenv plainType quietWorld ''http://h/''
      (Some (tokenRequest\<lparr>RequesterRequest := Some (Some getItems, None)\<rparr>)) None [] =
      Returns (quietWorld\<lparr>sent := [(DefaultTransport, getItems\<lparr>URL := itemsURL, Method := ''GET''\<rparr>)]\<rparr>,
       None,
       Some (ErrorObj \<lparr>code = 404,
         errString = ''Not Found%!(EXTRA string=body, []uint8=[103 111 110 101])''\<rparr>))"
    by (simp add: DoRequest_def gen run)
  have gen2: "GenerateClientRequest testenv ''http://h/''
      (Some (tokenRequest\<lparr>ValueOf :=
        VPtr (VStruct [(idField, VString ''7''), (requiredToken, VString [])])\<rparr>)) =
      Returns (http_NewRequest testenv ''GET'' ''http://h/v1/items'' None, Some (Errorf
       (''client field assignment failed, for client getItems: could not find path variable: ID, ''
        @ ''in path [http://h/v1/items], wanted syntax [{ID}]'')))"
    by (simp add: GenerateClientRequest_def tokenRequest_def validationErr_def TrimRight_def
        TrimLeft_def idField_def requiredToken_def run_defs)
  have second: "DoRequest testenv plainType quietWorld ''http://h/''
      (Some (tokenRequest\<lparr>ValueOf :=
        VPtr (VStruct [(idField, VString ''7''), (requiredToken, VString [])])\<rparr>)) None [] =
      Returns (quietWorld, None, Some (Errorf
       (''client field assignment failed, for client getItems: could not find path variable: ID, ''
        @ ''in path [http://h/v1/items], wanted syntax [{ID}]'')))"
    by (simp add: DoRequest_def gen2)
  have third: "DoRequest testenv plainType quietWorld ''http://h/''
      (Some (tokenRequest\<lparr>Validate := Some (Some (Errorf ''no token''))\<rparr>)) None [] =
      Returns (quietWorld, None, Some (Errorf ''client validation err: no token''))"
    by (simp add: DoRequest_def GenerateClientRequest_def tokenRequest_def validationErr_def)
  from first second third show ?thesis by blast
qed

end
